theory Spec2Isabelle
  imports Complex_Main "HOL-Library.Sublist" "HOL-Library.Word"
begin

section \<open>Managed instance groups and the GCE manager's registry\<close>

text \<open>
  The registry of \<^verbatim>\<open>gceManagerImpl\<close>: the list \<^verbatim>\<open>migs\<close> of registered groups with their
  instance basenames, and the cache \<^verbatim>\<open>migCache\<close> from instance references to groups.
  Go strings are \<open>string\<close>, Go \<^verbatim>\<open>int\<close> is \<open>int\<close> (the sizes are copied, never computed
  with), a nil pointer is \<open>None\<close>, and a map is a partial function.
\<close>

record GceRef =
  Project :: string
  Zone :: string
  Name :: string

text \<open>
  \<^verbatim>\<open>autoprovisioningSpec\<close>: the source reads the two fields \<^verbatim>\<open>machineType\<close> and
  \<^verbatim>\<open>labels\<close>; a nil map of labels is \<open>None\<close>.
\<close>

record autoprovisioningSpec =
  machineType :: string
  labels :: "(string \<rightharpoonup> string) option"

text \<open>
  \<^verbatim>\<open>Mig\<close>, with the fields of the struct literals of the source. The field
  \<^verbatim>\<open>gceManager\<close> is the back-reference to the owning manager: an interface value holding
  a pointer to a \<^verbatim>\<open>gceManagerImpl\<close>, modelled by the pointer's address.
\<close>

type_synonym manager_ptr = nat

record Mig =
  GceRef :: GceRef
  gceManager :: manager_ptr
  minSize :: int
  maxSize :: int
  autoprovisioned :: bool
  exist :: bool
  nodePoolName :: string
  spec :: "autoprovisioningSpec option"

record migInformation =
  config :: Mig
  basename :: string

datatype GcpCloudProviderMode = ModeGCE | ModeGKE | ModeGKENAP

record gceManagerImpl =
  migs :: "migInformation list"
  migCache :: "GceRef \<rightharpoonup> Mig"
  mode :: GcpCloudProviderMode

text \<open>
  Errors as values. \<open>ApiError\<close> is a failed call of a collaborator, \<open>UrlError\<close> a URL
  that does not parse; the next two are the errors \<^verbatim>\<open>GetMigForInstance\<close> builds with
  \<^verbatim>\<open>fmt.Errorf\<close>, then the two of \<^verbatim>\<open>calculateUtilizationOfResource\<close> (resource name and
  node name) and the one of \<^verbatim>\<open>findPlaceFor\<close>.
\<close>

datatype error =
    ApiError string
  | UrlError string
  | ErrorWhileLookingForMig GceRef error
  | DoesNotBelongToAnyConfiguredMig GceRef
  | FailedToGet string string
  | IsZeroAt string string
  | FailedToFindPlace

subsection \<open>reflect.DeepEqual on two groups\<close>

text \<open>
  \<^verbatim>\<open>reflect.DeepEqual(oldMig, mig)\<close> compares the two \<^verbatim>\<open>Mig\<close> structs field by field,
  unexported fields included. On the strings, integers, booleans, the embedded
  \<^verbatim>\<open>GceRef\<close> and the \<^verbatim>\<open>spec\<close> pointer (both nil, or both set with deeply equal contents)
  that is equality of the modelled values. On \<^verbatim>\<open>gceManager\<close> it compares the two
  manager pointers: equal addresses are deeply equal, and two different addresses are
  deeply equal exactly when the two manager structs are; that comparison of two
  distinct manager objects is the parameter \<open>managersDeepEqual\<close>.
\<close>

definition descriptiveFieldsEqual :: "Mig \<Rightarrow> Mig \<Rightarrow> bool" where
  "descriptiveFieldsEqual a b =
     (GceRef a = GceRef b \<and> minSize a = minSize b \<and> maxSize a = maxSize b \<and>
      autoprovisioned a = autoprovisioned b \<and> exist a = exist b \<and>
      nodePoolName a = nodePoolName b \<and> spec a = spec b)"

definition DeepEqual :: "(manager_ptr \<Rightarrow> manager_ptr \<Rightarrow> bool) \<Rightarrow> Mig \<Rightarrow> Mig \<Rightarrow> bool" where
  "DeepEqual managersDeepEqual a b =
     (descriptiveFieldsEqual a b \<and>
      (gceManager a = gceManager b \<or> managersDeepEqual (gceManager a) (gceManager b)))"

subsection \<open>RegisterMig and UnregisterMig\<close>

text \<open>
  The loop of \<^verbatim>\<open>RegisterMig\<close> over \<^verbatim>\<open>m.migs\<close>: at the first entry with the identity of
  \<open>mig\<close> it returns, true with the entry's config replaced when the two differ under
  \<^verbatim>\<open>reflect.DeepEqual\<close>, false otherwise. \<open>None\<close> is the loop running to its end.
\<close>

fun RegisterMig_loop ::
  "(manager_ptr \<Rightarrow> manager_ptr \<Rightarrow> bool) \<Rightarrow> Mig \<Rightarrow> migInformation list \<Rightarrow>
   (bool \<times> migInformation list) option" where
  "RegisterMig_loop deq mig [] = None"
| "RegisterMig_loop deq mig (mi # rest) =
     (if GceRef (config mi) = GceRef mig then
        (if \<not> DeepEqual deq (config mi) mig
         then Some (True, mi\<lparr>config := mig\<rparr> # rest)
         else Some (False, mi # rest))
      else (case RegisterMig_loop deq mig rest of
              None \<Rightarrow> None
            | Some (b, rest') \<Rightarrow> Some (b, mi # rest')))"

text \<open>
  After the loop the group is appended with an empty basename. The template that
  \<^verbatim>\<open>RegisterMig\<close> then builds is only logged on failure and changes no state.
\<close>

definition RegisterMig ::
  "(manager_ptr \<Rightarrow> manager_ptr \<Rightarrow> bool) \<Rightarrow> Mig \<Rightarrow> gceManagerImpl \<Rightarrow> bool \<times> gceManagerImpl" where
  "RegisterMig deq mig m =
     (case RegisterMig_loop deq mig (migs m) of
        Some (b, ms) \<Rightarrow> (b, m\<lparr>migs := ms\<rparr>)
      | None \<Rightarrow> (True, m\<lparr>migs := migs m @ [\<lparr>config = mig, basename = []\<rparr>]\<rparr>))"

fun UnregisterMig_loop ::
  "Mig \<Rightarrow> migInformation list \<Rightarrow> migInformation list \<times> bool \<Rightarrow> migInformation list \<times> bool" where
  "UnregisterMig_loop toBeRemoved [] (newMigs, found) = (newMigs, found)"
| "UnregisterMig_loop toBeRemoved (mig # rest) (newMigs, found) =
     (if GceRef (config mig) = GceRef toBeRemoved
      then UnregisterMig_loop toBeRemoved rest (newMigs, True)
      else UnregisterMig_loop toBeRemoved rest (newMigs @ [mig], found))"

definition UnregisterMig :: "Mig \<Rightarrow> gceManagerImpl \<Rightarrow> bool \<times> gceManagerImpl" where
  "UnregisterMig toBeRemoved m =
     (case UnregisterMig_loop toBeRemoved (migs m) ([], False) of
        (newMigs, found) \<Rightarrow> (found, m\<lparr>migs := newMigs\<rparr>))"

definition getMigs :: "gceManagerImpl \<Rightarrow> migInformation list" where
  "getMigs m = migs m"

fun updateMigBasename_loop :: "GceRef \<Rightarrow> string \<Rightarrow> migInformation list \<Rightarrow> migInformation list" where
  "updateMigBasename_loop ref b [] = []"
| "updateMigBasename_loop ref b (mig # rest) =
     (if GceRef (config mig) = ref then mig\<lparr>basename := b\<rparr> else mig)
       # updateMigBasename_loop ref b rest"

definition updateMigBasename :: "GceRef \<Rightarrow> string \<Rightarrow> gceManagerImpl \<Rightarrow> gceManagerImpl" where
  "updateMigBasename ref b m = m\<lparr>migs := updateMigBasename_loop ref b (migs m)\<rparr>"

subsection \<open>The cloud collaborator\<close>

text \<open>
  The calls of the compute API that \<^verbatim>\<open>regenerateCache\<close> makes, as functions of the group
  asked about: \<^verbatim>\<open>InstanceGroupManagers.Get\<close> (of which only \<^verbatim>\<open>BaseInstanceName\<close> is
  read), \<^verbatim>\<open>InstanceGroupManagers.ListManagedInstances\<close> (the instance URLs), and
  \<^verbatim>\<open>ParseInstanceUrl\<close>, which is defined elsewhere in the package.
\<close>

record cloud =
  InstanceGroupManagers_Get :: "GceRef \<Rightarrow> error + string"
  ListManagedInstances :: "GceRef \<Rightarrow> error + string list"
  ParseInstanceUrl :: "string \<Rightarrow> error + GceRef"

subsection \<open>regenerateCache\<close>

text \<open>
  The inner loop over the managed instances of one group: every instance URL is parsed
  and stored in the new cache under the group; a URL that does not parse ends the
  rebuild with its error.
\<close>

fun regenerateCache_instances ::
  "cloud \<Rightarrow> Mig \<Rightarrow> string list \<Rightarrow> (GceRef \<rightharpoonup> Mig) \<Rightarrow> error + (GceRef \<rightharpoonup> Mig)" where
  "regenerateCache_instances cl mig [] newMigCache = Inr newMigCache"
| "regenerateCache_instances cl mig (instance # rest) newMigCache =
     (case ParseInstanceUrl cl instance of
        Inl err \<Rightarrow> Inl err
      | Inr ref \<Rightarrow> regenerateCache_instances cl mig rest (newMigCache(ref \<mapsto> mig)))"

text \<open>
  The outer loop over the snapshot \<^verbatim>\<open>m.getMigs()\<close>. The manager is threaded through,
  since \<^verbatim>\<open>updateMigBasename\<close> writes the basenames as the loop goes; an error leaves the
  basenames written so far in place.
\<close>

fun regenerateCache_loop ::
  "cloud \<Rightarrow> migInformation list \<Rightarrow> gceManagerImpl \<Rightarrow> (GceRef \<rightharpoonup> Mig) \<Rightarrow>
   error option \<times> gceManagerImpl \<times> (GceRef \<rightharpoonup> Mig)" where
  "regenerateCache_loop cl [] m newMigCache = (None, m, newMigCache)"
| "regenerateCache_loop cl (migInfo # rest) m newMigCache =
     (let mig = config migInfo in
      case InstanceGroupManagers_Get cl (GceRef mig) of
        Inl err \<Rightarrow> (Some err, m, newMigCache)
      | Inr baseInstanceName \<Rightarrow>
          (let m1 = updateMigBasename (GceRef (config migInfo)) baseInstanceName m in
           case ListManagedInstances cl (GceRef mig) of
             Inl err \<Rightarrow> (Some err, m1, newMigCache)
           | Inr instances \<Rightarrow>
               (case regenerateCache_instances cl mig instances newMigCache of
                  Inl err \<Rightarrow> (Some err, m1, newMigCache)
                | Inr c \<Rightarrow> regenerateCache_loop cl rest m1 c)))"

text \<open>The new cache replaces the old one only when the whole rebuild went through.\<close>

definition regenerateCache :: "cloud \<Rightarrow> gceManagerImpl \<Rightarrow> error option \<times> gceManagerImpl" where
  "regenerateCache cl m =
     (case regenerateCache_loop cl (getMigs m) m Map.empty of
        (Some err, m', c) \<Rightarrow> (Some err, m')
      | (None, m', newMigCache) \<Rightarrow> (None, m'\<lparr>migCache := newMigCache\<rparr>))"

subsection \<open>GetMigForInstance\<close>

text \<open>
  The result is Go's pair \<^verbatim>\<open>(*Mig, error)\<close>: \<open>Inr (Some g)\<close> is a group, \<open>Inr None\<close> is
  \<^verbatim>\<open>(nil, nil)\<close>, \<open>Inl e\<close> is \<^verbatim>\<open>(nil, e)\<close>. The loop returns at the first registered group
  with the project and zone of the instance whose basename is a prefix of its name.
\<close>

fun GetMigForInstance_loop ::
  "cloud \<Rightarrow> GceRef \<Rightarrow> migInformation list \<Rightarrow> gceManagerImpl \<Rightarrow>
   (error + Mig option) \<times> gceManagerImpl" where
  "GetMigForInstance_loop cl instance [] m = (Inr None, m)"
| "GetMigForInstance_loop cl instance (mig # rest) m =
     (if Project (GceRef (config mig)) = Project instance \<and>
         Zone (GceRef (config mig)) = Zone instance \<and>
         prefix (basename mig) (Name instance)
      then (case regenerateCache cl m of
              (Some err, m') \<Rightarrow> (Inl (ErrorWhileLookingForMig instance err), m')
            | (None, m') \<Rightarrow>
                (case migCache m' instance of
                   Some g \<Rightarrow> (Inr (Some g), m')
                 | None \<Rightarrow> (Inl (DoesNotBelongToAnyConfiguredMig instance), m')))
      else GetMigForInstance_loop cl instance rest m)"

definition GetMigForInstance ::
  "cloud \<Rightarrow> GceRef \<Rightarrow> gceManagerImpl \<Rightarrow> (error + Mig option) \<times> gceManagerImpl" where
  "GetMigForInstance cl instance m =
     (case migCache m instance of
        Some mig \<Rightarrow> (Inr (Some mig), m)
      | None \<Rightarrow> GetMigForInstance_loop cl instance (getMigs m) m)"

subsection \<open>fetchAllNodePoolsGkeNapImpl\<close>

text \<open>
  The node pools of the cluster API's answer. \<^verbatim>\<open>Autoscaling\<close> is a pointer, nil when the
  pool has no autoscaling block.
\<close>

record NodePoolAutoscaling =
  Enabled :: bool
  Autoprovisioned :: bool
  MinNodeCount :: int
  MaxNodeCount :: int

record NodePool =
  pool_Name :: string
  Autoscaling :: "NodePoolAutoscaling option"
  InstanceGroupUrls :: "string list"

text \<open>
  The state of one pass: the manager, the set \<^verbatim>\<open>existingMigs\<close>, the flag \<^verbatim>\<open>changed\<close>, and
  the warnings written with \<^verbatim>\<open>glog.Warningf\<close> (the names of the pools warned about).
\<close>

record pass_state =
  manager :: gceManagerImpl
  existingMigs :: "GceRef set"
  changed :: bool
  warnings :: "string list"

text \<open>
  The loop over the instance group URLs of one autoscaled pool. \<^verbatim>\<open>parseGceUrl\<close> is
  defined elsewhere in the package and is a parameter; \<open>self\<close> is the address of the manager
  itself, stored in every group the pass builds.
\<close>

fun fetch_urls ::
  "(manager_ptr \<Rightarrow> manager_ptr \<Rightarrow> bool) \<Rightarrow> (string \<Rightarrow> error + GceRef) \<Rightarrow> manager_ptr \<Rightarrow>
   NodePool \<Rightarrow> bool \<Rightarrow> NodePoolAutoscaling \<Rightarrow> string list \<Rightarrow> pass_state \<Rightarrow>
   error option \<times> pass_state" where
  "fetch_urls deq parseGceUrl self nodePool autoprov au [] s = (None, s)"
| "fetch_urls deq parseGceUrl self nodePool autoprov au (igurl # rest) s =
     (case parseGceUrl igurl of
        Inl err \<Rightarrow> (Some err, s)
      | Inr ref \<Rightarrow>
          (let mig = \<lparr>GceRef = ref, gceManager = self,
                      minSize = MinNodeCount au, maxSize = MaxNodeCount au,
                      autoprovisioned = autoprov, exist = True,
                      nodePoolName = pool_Name nodePool, spec = None\<rparr>;
               (registered, m') = RegisterMig deq mig (manager s)
           in fetch_urls deq parseGceUrl self nodePool autoprov au rest
                (s\<lparr>manager := m', existingMigs := insert (GceRef mig) (existingMigs s),
                   changed := (changed s \<or> registered)\<rparr>)))"



fun fetch_pools ::
  "(manager_ptr \<Rightarrow> manager_ptr \<Rightarrow> bool) \<Rightarrow> (string \<Rightarrow> error + GceRef) \<Rightarrow> manager_ptr \<Rightarrow>
   NodePool list \<Rightarrow> pass_state \<Rightarrow> error option \<times> pass_state" where
  "fetch_pools deq parseGceUrl self [] s = (None, s)"
| "fetch_pools deq parseGceUrl self (nodePool # rest) s =
     (case Autoscaling nodePool of
        None \<Rightarrow> fetch_pools deq parseGceUrl self rest s
      | Some au \<Rightarrow>
          (if \<not> Enabled au then
             (if Autoprovisioned au
              then fetch_pools deq parseGceUrl self rest
                     (s\<lparr>warnings := warnings s @ [pool_Name nodePool]\<rparr>)
              else fetch_pools deq parseGceUrl self rest s)
           else (case fetch_urls deq parseGceUrl self nodePool (Autoprovisioned au) au
                        (InstanceGroupUrls nodePool) s of
                   (Some err, s') \<Rightarrow> (Some err, s')
                 | (None, s') \<Rightarrow> fetch_pools deq parseGceUrl self rest s')))"

text \<open>
  The second loop, over the snapshot \<^verbatim>\<open>m.getMigs()\<close>: a group whose identity is not in
  \<^verbatim>\<open>existingMigs\<close> is unregistered, and \<^verbatim>\<open>changed\<close> is set.
\<close>

fun fetch_unregister :: "migInformation list \<Rightarrow> pass_state \<Rightarrow> pass_state" where
  "fetch_unregister [] s = s"
| "fetch_unregister (mig # rest) s =
     (if GceRef (config mig) \<notin> existingMigs s
      then fetch_unregister rest
             (s\<lparr>manager := snd (UnregisterMig (config mig) (manager s)), changed := True\<rparr>)
      else fetch_unregister rest s)"

text \<open>
  A call either returns, or the process ends inside it: \<open>Aborted\<close> is \<^verbatim>\<open>glog.Fatalf\<close>
  and the panic of a nil pointer dereference.
\<close>

datatype 'a outcome = Aborted | Returned 'a

text \<open>
  A pass ends in one of three ways: \<^verbatim>\<open>glog.Fatalf\<close> of \<^verbatim>\<open>assertGKENAP\<close> ends the process,
  or the function returns an error or nil, with the manager as the pass left it and
  the warnings it logged. \<open>listing\<close> is the answer of the \<^verbatim>\<open>NodePools.List\<close> call.
\<close>

definition fetchAllNodePoolsGkeNapImpl ::
  "(manager_ptr \<Rightarrow> manager_ptr \<Rightarrow> bool) \<Rightarrow> (string \<Rightarrow> error + GceRef) \<Rightarrow> cloud \<Rightarrow> manager_ptr \<Rightarrow>
   (error + NodePool list) \<Rightarrow> gceManagerImpl \<Rightarrow>
   (error option \<times> gceManagerImpl \<times> string list) outcome" where
  "fetchAllNodePoolsGkeNapImpl deq parseGceUrl cl self listing m =
     (if mode m \<noteq> ModeGKENAP then Aborted
      else case listing of
        Inl err \<Rightarrow> Returned (Some err, m, [])
      | Inr nodePools \<Rightarrow>
          (case fetch_pools deq parseGceUrl self nodePools
                  \<lparr>manager = m, existingMigs = {}, changed = False, warnings = []\<rparr> of
             (Some err, s1) \<Rightarrow> Returned (Some err, manager s1, warnings s1)
           | (None, s1) \<Rightarrow>
               (let s2 = fetch_unregister (getMigs (manager s1)) s1 in
                if changed s2
                then (case regenerateCache cl (manager s2) of
                        (res, m') \<Rightarrow> Returned (res, m', warnings s2))
                else Returned (None, manager s2, warnings s2))))"

section \<open>The removal simulator\<close>

subsection \<open>Nodes, pods and node infos\<close>

text \<open>
  A \<^verbatim>\<open>resource.Quantity\<close> is a decimal number of arbitrary precision; it is modelled by
  the rational number it denotes, \<^verbatim>\<open>resource.MustParse("0")\<close> by zero and \<^verbatim>\<open>Add\<close> by
  addition, which is exact. A resource list maps resource names to quantities.
\<close>

type_synonym Quantity = rat

type_synonym ResourceList = "string \<rightharpoonup> Quantity"

definition ResourceCPU :: string where
  "ResourceCPU = ''cpu''"

definition ResourceMemory :: string where
  "ResourceMemory = ''memory''"

record Container =
  Requests :: ResourceList

record Pod =
  Namespace :: string
  pod_Name :: string
  Spec_NodeName :: string
  Containers :: "Container list"

record Node =
  node_Name :: string
  Capacity :: ResourceList
  Allocatable :: ResourceList

text \<open>
  The callers hold \<^verbatim>\<open>*Node\<close> pointers and the simulator writes through them, so node
  objects live in a store from addresses to nodes, and the lists \<^verbatim>\<open>candidates\<close> and
  \<^verbatim>\<open>allNodes\<close> are lists of addresses (none of them nil). A \<^verbatim>\<open>schedulercache.NodeInfo\<close> is
  its list of pods and its node pointer, nil until \<^verbatim>\<open>SetNode\<close>.
\<close>

type_synonym node_ptr = nat

record NodeInfo =
  node :: "node_ptr option"
  pods :: "Pod list"

definition podKey :: "Pod \<Rightarrow> string" where
  "podKey pod = Namespace pod @ ''/'' @ pod_Name pod"

text \<open>
  \<^verbatim>\<open>schedulercache.CreateNodeNameToInfoMap(pods)\<close> of the scheduler library: one node info
  per node name that some pod is bound to, holding the pods bound to that name, with
  no node set.
\<close>

fun CreateNodeNameToInfoMap_loop :: "Pod list \<Rightarrow> (string \<rightharpoonup> NodeInfo) \<Rightarrow> (string \<rightharpoonup> NodeInfo)" where
  "CreateNodeNameToInfoMap_loop [] nodeNameToInfo = nodeNameToInfo"
| "CreateNodeNameToInfoMap_loop (pod # rest) nodeNameToInfo =
     (let nodeName = Spec_NodeName pod;
          nodeInfo = (case nodeNameToInfo nodeName of
                        None \<Rightarrow> \<lparr>node = None, pods = []\<rparr>
                      | Some ni \<Rightarrow> ni)
      in CreateNodeNameToInfoMap_loop rest
           (nodeNameToInfo(nodeName \<mapsto> nodeInfo\<lparr>pods := pods nodeInfo @ [pod]\<rparr>)))"

definition CreateNodeNameToInfoMap :: "Pod list \<Rightarrow> (string \<rightharpoonup> NodeInfo)" where
  "CreateNodeNameToInfoMap ps = CreateNodeNameToInfoMap_loop ps Map.empty"

text \<open>The first loop of \<^verbatim>\<open>FindNodesToRemove\<close>: \<^verbatim>\<open>SetNode\<close> on the node infos found.\<close>

fun setNodes ::
  "(node_ptr \<Rightarrow> Node) \<Rightarrow> node_ptr list \<Rightarrow> (string \<rightharpoonup> NodeInfo) \<Rightarrow> (string \<rightharpoonup> NodeInfo)" where
  "setNodes st [] nodeNameToNodeInfo = nodeNameToNodeInfo"
| "setNodes st (n # rest) nodeNameToNodeInfo =
     (case nodeNameToNodeInfo (node_Name (st n)) of
        Some nodeInfo \<Rightarrow>
          setNodes st rest (nodeNameToNodeInfo(node_Name (st n) \<mapsto> nodeInfo\<lparr>node := Some n\<rparr>))
      | None \<Rightarrow> setNodes st rest nodeNameToNodeInfo)"

subsection \<open>CalculateUtilization\<close>

text \<open>
  The two loops over the pods of the node info and their containers, adding up the
  requests for one resource.
\<close>

fun containersRequest :: "string \<Rightarrow> Container list \<Rightarrow> Quantity \<Rightarrow> Quantity" where
  "containersRequest resourceName [] podsRequest = podsRequest"
| "containersRequest resourceName (container # rest) podsRequest =
     (case Requests container resourceName of
        Some resourceValue \<Rightarrow> containersRequest resourceName rest (podsRequest + resourceValue)
      | None \<Rightarrow> containersRequest resourceName rest podsRequest)"

fun podsRequestLoop :: "string \<Rightarrow> Pod list \<Rightarrow> Quantity \<Rightarrow> Quantity" where
  "podsRequestLoop resourceName [] podsRequest = podsRequest"
| "podsRequestLoop resourceName (pod # rest) podsRequest =
     podsRequestLoop resourceName rest (containersRequest resourceName (Containers pod) podsRequest)"

text \<open>
  The machine arithmetic of the last line,
  \<^verbatim>\<open>float64(podsRequest.MilliValue()) / float64(nodeCapacity.MilliValue())\<close>, and of
  \<^verbatim>\<open>math.Max\<close> is not computed here but taken as it is: \<^verbatim>\<open>MilliValue()\<close> of the resource
  package, which yields an \<^verbatim>\<open>int64\<close> (and may overflow), the conversion of an \<^verbatim>\<open>int64\<close> to
  \<^verbatim>\<open>float64\<close>, the division of two \<^verbatim>\<open>float64\<close> and \<^verbatim>\<open>math.Max\<close> are parameters, and
  \<open>'f\<close> stands for \<^verbatim>\<open>float64\<close>. Nothing is assumed of them.
\<close>

record 'f arithmetic =
  MilliValue :: "Quantity \<Rightarrow> 64 word"
  float64 :: "64 word \<Rightarrow> 'f"
  float64_div :: "'f \<Rightarrow> 'f \<Rightarrow> 'f"
  math_Max :: "'f \<Rightarrow> 'f \<Rightarrow> 'f"

definition calculateUtilizationOfResource ::
  "'f arithmetic \<Rightarrow> Node \<Rightarrow> NodeInfo \<Rightarrow> string \<Rightarrow> error + 'f" where
  "calculateUtilizationOfResource ar nd nodeInfo resourceName =
     (case Capacity nd resourceName of
        None \<Rightarrow> Inl (FailedToGet resourceName (node_Name nd))
      | Some nodeCapacity \<Rightarrow>
          (if MilliValue ar nodeCapacity = 0 then Inl (IsZeroAt resourceName (node_Name nd))
           else Inr (float64_div ar
                       (float64 ar (MilliValue ar (podsRequestLoop resourceName (pods nodeInfo) 0)))
                       (float64 ar (MilliValue ar nodeCapacity)))))"

definition CalculateUtilization :: "'f arithmetic \<Rightarrow> Node \<Rightarrow> NodeInfo \<Rightarrow> error + 'f" where
  "CalculateUtilization ar nd nodeInfo =
     (case calculateUtilizationOfResource ar nd nodeInfo ResourceCPU of
        Inl err \<Rightarrow> Inl err
      | Inr cpu \<Rightarrow>
          (case calculateUtilizationOfResource ar nd nodeInfo ResourceMemory of
             Inl err \<Rightarrow> Inl err
           | Inr mem \<Rightarrow> Inr (math_Max ar cpu mem)))"

subsection \<open>findPlaceFor\<close>

text \<open>
  What a run of the simulator writes: the map \<^verbatim>\<open>newHints\<close>, the node objects in the
  store, and the lines \<^verbatim>\<open>glog.V(4).Infof("Evaluation %s for %s/%s -> %v", ...)\<close>, one per
  call of the predicate checker: the node name, the pod's key and whether the checker
  returned nil.
\<close>

record sim_state =
  newHints :: "string \<rightharpoonup> string"
  store :: "node_ptr \<Rightarrow> Node"
  evaluations :: "(string \<times> string \<times> bool) list"

text \<open>
  The collaborators: \<^verbatim>\<open>predicateChecker.CheckPredicates(pod, nodeInfo)\<close>, which sees the
  pod, the pods of the node info and its node (true when it returns nil);
  \<^verbatim>\<open>FastGetPodsToMove\<close> on a node info; and \<^verbatim>\<open>GetPodsForDeletionOnNodeDrain\<close> on a node
  name.
\<close>

record collaborators =
  CheckPredicates :: "Pod \<Rightarrow> Pod list \<Rightarrow> Node \<Rightarrow> bool"
  FastGetPodsToMove :: "NodeInfo \<Rightarrow> error + Pod list"
  GetPodsForDeletionOnNodeDrain :: "string \<Rightarrow> error + Pod list"

text \<open>
  The closure \<^verbatim>\<open>tryNodeForPod\<close>. The node info is looked up in \<^verbatim>\<open>newNodeInfos\<close> first, then
  in \<^verbatim>\<open>nodeInfos\<close>. \<^verbatim>\<open>nodeInfo.Node().Status.Allocatable = ...\<close> writes through the node
  pointer, and panics when the node info has no node.
\<close>

definition tryNodeForPod ::
  "collaborators \<Rightarrow> (string \<rightharpoonup> NodeInfo) \<Rightarrow> string \<Rightarrow> Pod \<Rightarrow>
   (string \<rightharpoonup> NodeInfo) \<times> sim_state \<Rightarrow> (bool \<times> (string \<rightharpoonup> NodeInfo) \<times> sim_state) outcome" where
  "tryNodeForPod env nodeInfos nodename pod ns =
     (case ns of (newNodeInfos, s) \<Rightarrow>
      (case (case newNodeInfos nodename of
               Some ni \<Rightarrow> Some ni
             | None \<Rightarrow> nodeInfos nodename) of
         None \<Rightarrow> Returned (False, newNodeInfos, s)
       | Some nodeInfo \<Rightarrow>
           (case node nodeInfo of
              None \<Rightarrow> Aborted
            | Some a \<Rightarrow>
                (let st1 = (store s)(a := (store s a)\<lparr>Allocatable := Capacity (store s a)\<rparr>);
                     fits = CheckPredicates env pod (pods nodeInfo) (st1 a);
                     s1 = s\<lparr>store := st1,
                            evaluations := evaluations s @ [(nodename, podKey pod, fits)]\<rparr>
                 in if fits
                    then Returned (True,
                           newNodeInfos(nodename \<mapsto> \<lparr>node = Some a, pods = pods nodeInfo @ [pod]\<rparr>),
                           s1\<lparr>newHints := (newHints s1)(podKey pod \<mapsto> nodename)\<rparr>)
                    else Returned (False, newNodeInfos, s1)))))"

text \<open>The inner loop over \<^verbatim>\<open>nodes\<close>, skipping the banned node, first fit.\<close>

fun findPlaceFor_nodes ::
  "collaborators \<Rightarrow> (string \<rightharpoonup> NodeInfo) \<Rightarrow> string \<Rightarrow> Pod \<Rightarrow> node_ptr list \<Rightarrow>
   (string \<rightharpoonup> NodeInfo) \<times> sim_state \<Rightarrow> (bool \<times> (string \<rightharpoonup> NodeInfo) \<times> sim_state) outcome" where
  "findPlaceFor_nodes env nodeInfos bannedNode pod [] ns = Returned (False, fst ns, snd ns)"
| "findPlaceFor_nodes env nodeInfos bannedNode pod (n # rest) ns =
     (if node_Name (store (snd ns) n) = bannedNode
      then findPlaceFor_nodes env nodeInfos bannedNode pod rest ns
      else (case tryNodeForPod env nodeInfos (node_Name (store (snd ns) n)) pod ns of
              Aborted \<Rightarrow> Aborted
            | Returned (ok, ns') \<Rightarrow>
                if ok then Returned (True, ns')
                else findPlaceFor_nodes env nodeInfos bannedNode pod rest ns'))"

text \<open>The hinted node is tried first, unless it is the banned node.\<close>

definition tryHintedNode ::
  "collaborators \<Rightarrow> (string \<rightharpoonup> NodeInfo) \<Rightarrow> string \<Rightarrow> (string \<rightharpoonup> string) \<Rightarrow> Pod \<Rightarrow>
   (string \<rightharpoonup> NodeInfo) \<times> sim_state \<Rightarrow> (bool \<times> (string \<rightharpoonup> NodeInfo) \<times> sim_state) outcome" where
  "tryHintedNode env nodeInfos bannedNode oldHints pod ns =
     (case oldHints (podKey pod) of
        Some hintedNode \<Rightarrow>
          (if hintedNode \<noteq> bannedNode then tryNodeForPod env nodeInfos hintedNode pod ns
           else Returned (False, fst ns, snd ns))
      | None \<Rightarrow> Returned (False, fst ns, snd ns))"

text \<open>
  The loop over the pods to place. Each pod is copied with its node name cleared. The
  result is the error of \<^verbatim>\<open>findPlaceFor\<close> (\<open>None\<close> is nil), with the overlay
  \<^verbatim>\<open>newNodeInfos\<close> and the state as the loop left them.
\<close>

fun findPlaceFor_pods ::
  "collaborators \<Rightarrow> (string \<rightharpoonup> NodeInfo) \<Rightarrow> string \<Rightarrow> node_ptr list \<Rightarrow> (string \<rightharpoonup> string) \<Rightarrow>
   Pod list \<Rightarrow> (string \<rightharpoonup> NodeInfo) \<times> sim_state \<Rightarrow>
   (error option \<times> (string \<rightharpoonup> NodeInfo) \<times> sim_state) outcome" where
  "findPlaceFor_pods env nodeInfos bannedNode nodes oldHints [] ns = Returned (None, ns)"
| "findPlaceFor_pods env nodeInfos bannedNode nodes oldHints (podptr # rest) ns =
     (let pod = podptr\<lparr>Spec_NodeName := []\<rparr> in
      case tryHintedNode env nodeInfos bannedNode oldHints pod ns of
        Aborted \<Rightarrow> Aborted
      | Returned (foundPlace, ns1) \<Rightarrow>
          if foundPlace
          then findPlaceFor_pods env nodeInfos bannedNode nodes oldHints rest ns1
          else (case findPlaceFor_nodes env nodeInfos bannedNode pod nodes ns1 of
                  Aborted \<Rightarrow> Aborted
                | Returned (foundPlace2, ns2) \<Rightarrow>
                    if foundPlace2
                    then findPlaceFor_pods env nodeInfos bannedNode nodes oldHints rest ns2
                    else Returned (Some FailedToFindPlace, ns2)))"

text \<open>
  \<^verbatim>\<open>findPlaceFor\<close> starts from an empty \<^verbatim>\<open>newNodeInfos\<close>, a local variable that is dropped
  when it returns: only the error and the state come back.
\<close>

definition findPlaceFor ::
  "collaborators \<Rightarrow> string \<Rightarrow> Pod list \<Rightarrow> node_ptr list \<Rightarrow> (string \<rightharpoonup> NodeInfo) \<Rightarrow>
   (string \<rightharpoonup> string) \<Rightarrow> sim_state \<Rightarrow> (error option \<times> sim_state) outcome" where
  "findPlaceFor env bannedNode ps nodes nodeInfos oldHints s =
     (case findPlaceFor_pods env nodeInfos bannedNode nodes oldHints ps (Map.empty, s) of
        Aborted \<Rightarrow> Aborted
      | Returned (err, newNodeInfos, s') \<Rightarrow> Returned (err, s'))"

subsection \<open>FindNodesToRemove\<close>

text \<open>
  The pods to move off a candidate: \<open>None\<close> is \<^verbatim>\<open>continue candidateloop\<close>, when the
  collaborator fails or, in a fast check, the candidate has no node info.
\<close>

definition podsToRemove ::
  "collaborators \<Rightarrow> bool \<Rightarrow> (string \<rightharpoonup> NodeInfo) \<Rightarrow> string \<Rightarrow> Pod list option" where
  "podsToRemove env fastCheck nodeNameToNodeInfo nodeName =
     (if fastCheck then
        (case nodeNameToNodeInfo nodeName of
           Some nodeInfo \<Rightarrow>
             (case FastGetPodsToMove env nodeInfo of
                Inl err \<Rightarrow> None
              | Inr ps \<Rightarrow> Some ps)
         | None \<Rightarrow> None)
      else (case GetPodsForDeletionOnNodeDrain env nodeName of
              Inl err \<Rightarrow> None
            | Inr drainResult \<Rightarrow> Some drainResult))"

fun candidateloop ::
  "collaborators \<Rightarrow> bool \<Rightarrow> int \<Rightarrow> node_ptr list \<Rightarrow> (string \<rightharpoonup> NodeInfo) \<Rightarrow> (string \<rightharpoonup> string) \<Rightarrow>
   node_ptr list \<Rightarrow> node_ptr list \<times> sim_state \<Rightarrow> (node_ptr list \<times> sim_state) outcome" where
  "candidateloop env fastCheck maxCount allNodes nodeNameToNodeInfo oldHints [] rs = Returned rs"
| "candidateloop env fastCheck maxCount allNodes nodeNameToNodeInfo oldHints (c # rest) rs =
     (case rs of (result, s) \<Rightarrow>
      (case podsToRemove env fastCheck nodeNameToNodeInfo (node_Name (store s c)) of
         None \<Rightarrow> candidateloop env fastCheck maxCount allNodes nodeNameToNodeInfo oldHints rest rs
       | Some ps \<Rightarrow>
           (case findPlaceFor env (node_Name (store s c)) ps allNodes nodeNameToNodeInfo oldHints s of
              Aborted \<Rightarrow> Aborted
            | Returned (findProblems, s') \<Rightarrow>
                (case findProblems of
                   None \<Rightarrow>
                     (if int (length (result @ [c])) \<ge> maxCount
                      then Returned (result @ [c], s')
                      else candidateloop env fastCheck maxCount allNodes nodeNameToNodeInfo oldHints
                             rest (result @ [c], s'))
                 | Some err \<Rightarrow>
                     candidateloop env fastCheck maxCount allNodes nodeNameToNodeInfo oldHints
                       rest (result, s')))))"

text \<open>
  The function returns the triple \<^verbatim>\<open>(result, newHints, nil)\<close>; the state that comes with
  it holds the caller's node objects as the run left them, and the evaluations logged.
\<close>

definition FindNodesToRemove ::
  "collaborators \<Rightarrow> node_ptr list \<Rightarrow> node_ptr list \<Rightarrow> Pod list \<Rightarrow> int \<Rightarrow> bool \<Rightarrow>
   (string \<rightharpoonup> string) \<Rightarrow> (node_ptr \<Rightarrow> Node) \<Rightarrow>
   ((node_ptr list \<times> (string \<rightharpoonup> string) \<times> error option) \<times> sim_state) outcome" where
  "FindNodesToRemove env candidates allNodes ps maxCount fastCheck oldHints st =
     (let nodeNameToNodeInfo = setNodes st allNodes (CreateNodeNameToInfoMap ps) in
      case candidateloop env fastCheck maxCount allNodes nodeNameToNodeInfo oldHints candidates
             ([], \<lparr>newHints = Map.empty, store = st, evaluations = []\<rparr>) of
        Aborted \<Rightarrow> Aborted
      | Returned (result, s) \<Rightarrow> Returned ((result, newHints s, None), s))"

section \<open>The unneeded-node update\<close>

text \<open>
  The options of the scale-down logic that bound the candidates, as the tests set them.
  The two counts are numbers of nodes; the ratio is a fraction of the number of nodes.
\<close>

record AutoscalingOptions =
  ScaleDownNonEmptyCandidatesCount :: nat
  ScaleDownCandidatesPoolRatio :: real
  ScaleDownCandidatesPoolMinCount :: nat

text \<open>
  Modelled from the spec: the size of the pool of non-empty candidates that
  \<^verbatim>\<open>UpdateUnneededNodes\<close> considers (the function is called by the tests; its code is in
  another file of the package). The pool is bounded by a ratio of the total number of
  nodes with a configurable floor: the larger of the two, as a whole number of nodes.
\<close>

definition candidatesPoolSize :: "AutoscalingOptions \<Rightarrow> nat \<Rightarrow> nat" where
  "candidatesPoolSize opts totalNodes =
     nat \<lfloor>max (real totalNodes * ScaleDownCandidatesPoolRatio opts)
              (real (ScaleDownCandidatesPoolMinCount opts))\<rfloor>"

text \<open>
  Modelled from the spec: step 1 of \<^verbatim>\<open>UpdateUnneededNodes\<close>. A node qualifies when its
  utilization is below the threshold or it is empty, unless an exclusion rule applies
  (an annotation that disables scale-down, or a recent rejection as unremovable).
\<close>

definition qualifies :: "real \<Rightarrow> ('n \<Rightarrow> real) \<Rightarrow> ('n \<Rightarrow> bool) \<Rightarrow> ('n \<Rightarrow> bool) \<Rightarrow> 'n \<Rightarrow> bool" where
  "qualifies threshold utilization isEmpty excluded n =
     ((utilization n < threshold \<or> isEmpty n) \<and> \<not> excluded n)"

text \<open>
  Modelled from the spec: step 2 of \<^verbatim>\<open>UpdateUnneededNodes\<close>. The candidates are split
  into the empty ones (no pods but DaemonSet and mirror pods) and the others; all the
  empty ones are kept, and of the others at most the configured maximum, taken from
  the pool of the first \<open>candidatesPoolSize\<close> of them.
\<close>

definition capCandidates :: "AutoscalingOptions \<Rightarrow> nat \<Rightarrow> ('n \<Rightarrow> bool) \<Rightarrow> 'n list \<Rightarrow> 'n list" where
  "capCandidates opts totalNodes isEmpty candidates =
     filter isEmpty candidates @
     take (ScaleDownNonEmptyCandidatesCount opts)
       (take (candidatesPoolSize opts totalNodes) (filter (\<lambda>n. \<not> isEmpty n) candidates))"

text \<open>
  Modelled from the spec: the unneeded set that \<^verbatim>\<open>UpdateUnneededNodes\<close> recomputes from
  scratch, from the nodes to check and the list of all nodes.
\<close>

definition unneededNodesList ::
  "AutoscalingOptions \<Rightarrow> real \<Rightarrow> ('n \<Rightarrow> real) \<Rightarrow> ('n \<Rightarrow> bool) \<Rightarrow> ('n \<Rightarrow> bool) \<Rightarrow>
   'n list \<Rightarrow> 'n list \<Rightarrow> 'n list" where
  "unneededNodesList opts threshold utilization isEmpty excluded allNodes nodesToCheck =
     capCandidates opts (length allNodes) isEmpty
       (filter (qualifies threshold utilization isEmpty excluded) nodesToCheck)"

section \<open>Notions the claims about the registry are stated with\<close>

text \<open>
  The instances the cloud collaborator reports for a group: the references that the
  instance URLs of \<^verbatim>\<open>ListManagedInstances\<close> parse to.
\<close>

definition reports :: "cloud \<Rightarrow> Mig \<Rightarrow> GceRef \<Rightarrow> bool" where
  "reports cl g ref =
     (case ListManagedInstances cl (GceRef g) of
        Inl err \<Rightarrow> False
      | Inr instances \<Rightarrow> (\<exists>u\<in>set instances. ParseInstanceUrl cl u = Inr ref))"

text \<open>
  A sequence of \<^verbatim>\<open>RegisterMig\<close> and \<^verbatim>\<open>UnregisterMig\<close> calls on a manager, the returned
  flags dropped.
\<close>

datatype registry_op = Register Mig | Unregister Mig

fun apply_ops :: "(manager_ptr \<Rightarrow> manager_ptr \<Rightarrow> bool) \<Rightarrow> registry_op list \<Rightarrow> gceManagerImpl \<Rightarrow> gceManagerImpl" where
  "apply_ops deq [] m = m"
| "apply_ops deq (Register g # rest) m = apply_ops deq rest (snd (RegisterMig deq g m))"
| "apply_ops deq (Unregister g # rest) m = apply_ops deq rest (snd (UnregisterMig g m))"

text \<open>
  The test of the loop of \<^verbatim>\<open>GetMigForInstance\<close>: the group has the project and zone of
  the instance, and its basename is a prefix of the instance's name.
\<close>

definition matchesInstance :: "GceRef \<Rightarrow> migInformation \<Rightarrow> bool" where
  "matchesInstance instance mig =
     (Project (GceRef (config mig)) = Project instance \<and>
      Zone (GceRef (config mig)) = Zone instance \<and>
      prefix (basename mig) (Name instance))"

section \<open>Notions the claims about the utilization are stated with\<close>

text \<open>
  The sum of the requests for one resource over the containers of a list of pods; a
  container that does not request the resource counts as zero.
\<close>

definition containerRequest :: "string \<Rightarrow> Container \<Rightarrow> Quantity" where
  "containerRequest resourceName container =
     (case Requests container resourceName of None \<Rightarrow> 0 | Some v \<Rightarrow> v)"

definition requestedBy :: "string \<Rightarrow> Pod list \<Rightarrow> Quantity" where
  "requestedBy resourceName ps =
     sum_list (map (\<lambda>pod. sum_list (map (containerRequest resourceName) (Containers pod))) ps)"

section \<open>Notions the claim about the reconcile pass is stated with\<close>









section \<open>Notions the properties of the removal simulator are proved with\<close>

text \<open>
  A store after some evaluations: every node object is as it was, or as it was with
  \<^verbatim>\<open>Status.Allocatable\<close> overwritten by \<^verbatim>\<open>Status.Capacity\<close>.
\<close>

definition store_step :: "(node_ptr \<Rightarrow> Node) \<Rightarrow> (node_ptr \<Rightarrow> Node) \<Rightarrow> bool" where
  "store_step st st' =
     (\<forall>a. st' a = st a \<or> st' a = (st a)\<lparr>Allocatable := Capacity (st a)\<rparr>)"

text \<open>
  A hints map after placing pods with the given keys away from a banned node: an entry
  is as it was, or it belongs to one of the keys and names a node other than the banned
  one.
\<close>

definition hints_step :: "string set \<Rightarrow> string \<Rightarrow> (string \<rightharpoonup> string) \<Rightarrow> (string \<rightharpoonup> string) \<Rightarrow> bool" where
  "hints_step keys bannedNode h h' =
     (\<forall>k. h' k = h k \<or> (k \<in> keys \<and> (\<exists>dest. h' k = Some dest \<and> dest \<noteq> bannedNode)))"

text \<open>
  Every entry of the overlay \<^verbatim>\<open>newNodeInfos\<close> carries the node of the entry of
  \<^verbatim>\<open>nodeInfos\<close> under the same name.
\<close>

definition overlay_ok :: "(string \<rightharpoonup> NodeInfo) \<Rightarrow> (string \<rightharpoonup> NodeInfo) \<Rightarrow> bool" where
  "overlay_ok nodeInfos newNodeInfos =
     (\<forall>n ni'. newNodeInfos n = Some ni' \<longrightarrow>
        (\<exists>ni a. nodeInfos n = Some ni \<and> node ni = Some a \<and> node ni' = Some a))"

text \<open>
  Every logged evaluation was made on a node info that has a node, and that node object
  has \<^verbatim>\<open>Status.Allocatable\<close> equal to \<^verbatim>\<open>Status.Capacity\<close>.
\<close>

definition evaluated_ok :: "(string \<rightharpoonup> NodeInfo) \<Rightarrow> sim_state \<Rightarrow> bool" where
  "evaluated_ok nodeInfos s =
     (\<forall>e\<in>set (evaluations s).
        \<exists>ni a. nodeInfos (fst e) = Some ni \<and> node ni = Some a \<and>
               Allocatable (store s a) = Capacity (store s a))"

text \<open>
  What a piece of \<^verbatim>\<open>findPlaceFor\<close> does to the overlay and the state, all four together.
\<close>

definition run_step ::
  "(string \<rightharpoonup> NodeInfo) \<Rightarrow> string set \<Rightarrow> string \<Rightarrow>
   (string \<rightharpoonup> NodeInfo) \<times> sim_state \<Rightarrow> (string \<rightharpoonup> NodeInfo) \<times> sim_state \<Rightarrow> bool" where
  "run_step nodeInfos keys bannedNode ns ns' =
     (store_step (store (snd ns)) (store (snd ns')) \<and>
      hints_step keys bannedNode (newHints (snd ns)) (newHints (snd ns')) \<and>
      (overlay_ok nodeInfos (fst ns) \<longrightarrow> overlay_ok nodeInfos (fst ns')) \<and>
      (overlay_ok nodeInfos (fst ns) \<and> evaluated_ok nodeInfos (snd ns)
         \<longrightarrow> evaluated_ok nodeInfos (snd ns')))"

text \<open>
  Every node info has a node: no \<^verbatim>\<open>nodeInfo.Node()\<close> is nil.
\<close>

definition nodes_set :: "(string \<rightharpoonup> NodeInfo) \<Rightarrow> bool" where
  "nodes_set nodeInfos = (\<forall>n ni. nodeInfos n = Some ni \<longrightarrow> node ni \<noteq> None)"


section \<open>Example inputs\<close>

text \<open>
  A group of the default pool as the tests set it up, owned by the manager at address
  1, and a manager whose registry holds that group alone.
\<close>

definition defaultPoolMig :: Mig where
  "defaultPoolMig =
     \<lparr>GceRef = \<lparr>Project = ''project1'', Zone = ''us-central1-b'', Name = ''gke-cluster-1-default-pool''\<rparr>,
      gceManager = 1, minSize = 1, maxSize = 11, autoprovisioned = False, exist = True,
      nodePoolName = ''default-pool'', spec = None\<rparr>"

definition testManager :: gceManagerImpl where
  "testManager =
     \<lparr>migs = [\<lparr>config = defaultPoolMig, basename = []\<rparr>], migCache = Map.empty, mode = ModeGKENAP\<rparr>"

text \<open>
  An instance of the default pool, a cloud collaborator that reports it as the only
  member of every group, and the test manager after a rebuild against that cloud.
\<close>

definition testInstance :: GceRef where
  "testInstance = \<lparr>Project = ''project1'', Zone = ''us-central1-b'',
                    Name = ''gke-cluster-1-default-pool-f7607aac-f1hm''\<rparr>"

definition testCloud :: cloud where
  "testCloud =
     \<lparr>InstanceGroupManagers_Get = (\<lambda>ref. Inr ''gke-cluster-1-default-pool''),
      ListManagedInstances = (\<lambda>ref. Inr [''f1hm'']),
      ParseInstanceUrl = (\<lambda>url. if url = ''f1hm'' then Inr testInstance else Inl (UrlError url))\<rparr>"

definition rebuiltManager :: gceManagerImpl where
  "rebuiltManager =
     \<lparr>migs = [\<lparr>config = defaultPoolMig, basename = ''gke-cluster-1-default-pool''\<rparr>],
      migCache = [testInstance \<mapsto> defaultPoolMig], mode = ModeGKENAP\<rparr>"

text \<open>
  The node and pod of the tests (\<^verbatim>\<open>BuildTestNode("n2", 1000, 10)\<close> and
  \<^verbatim>\<open>BuildTestPod("p2", 300, 0)\<close>: one CPU and ten bytes of memory; 300 milli-CPU and no
  memory), an arithmetic for the examples, exact on the rational numbers with the
  milli-value rounded up, and options with a cap of one non-empty candidate.
\<close>

definition exactArithmetic :: "rat arithmetic" where
  "exactArithmetic =
     \<lparr>MilliValue = (\<lambda>q. word_of_int \<lceil>q * 1000\<rceil>), float64 = (\<lambda>w. of_int (sint w)),
      float64_div = (\<lambda>x y. x / y), math_Max = max\<rparr>"

definition testNode :: Node where
  "testNode = \<lparr>node_Name = ''n2'',
               Capacity = [ResourceCPU \<mapsto> 1, ResourceMemory \<mapsto> 10],
               Allocatable = [ResourceCPU \<mapsto> 1, ResourceMemory \<mapsto> 10]\<rparr>"

definition testPod :: Pod where
  "testPod = \<lparr>Namespace = ''default'', pod_Name = ''p2'', Spec_NodeName = ''n2'',
              Containers = [\<lparr>Requests = [ResourceCPU \<mapsto> 3 / 10, ResourceMemory \<mapsto> 0]\<rparr>]\<rparr>"

definition testOptions :: AutoscalingOptions where
  "testOptions = \<lparr>ScaleDownNonEmptyCandidatesCount = 1, ScaleDownCandidatesPoolRatio = 1,
                   ScaleDownCandidatesPoolMinCount = 1000\<rparr>"





text \<open>
  Two nodes \<^verbatim>\<open>n1\<close> and \<^verbatim>\<open>n2\<close> at addresses 1 and 2 (every other address holds a copy
  of \<^verbatim>\<open>n2\<close>), with allocatable cpu below capacity; pods without containers in the
  namespace \<^verbatim>\<open>default\<close>; a predicate checker that accepts every pod and one that accepts
  the pod \<^verbatim>\<open>p1\<close> alone, both with a \<^verbatim>\<open>FastGetPodsToMove\<close> that asks to move every pod of
  the node.
\<close>

definition simNode :: "string \<Rightarrow> Node" where
  "simNode n = \<lparr>node_Name = n, Capacity = [ResourceCPU \<mapsto> 1], Allocatable = [ResourceCPU \<mapsto> 9 / 10]\<rparr>"

definition simStore :: "node_ptr \<Rightarrow> Node" where
  "simStore a = (if a = 1 then simNode ''n1'' else simNode ''n2'')"

definition simPod :: "string \<Rightarrow> string \<Rightarrow> Pod" where
  "simPod n nodeName = \<lparr>Namespace = ''default'', pod_Name = n, Spec_NodeName = nodeName, Containers = []\<rparr>"

definition fitsAll :: collaborators where
  "fitsAll = \<lparr>CheckPredicates = (\<lambda>pod ps nd. True),
              FastGetPodsToMove = (\<lambda>nodeInfo. Inr (pods nodeInfo)),
              GetPodsForDeletionOnNodeDrain = (\<lambda>nodeName. Inl (ApiError ''no client''))\<rparr>"


text \<open>
  The node infos of the pods \<^verbatim>\<open>p1\<close> on \<^verbatim>\<open>n1\<close> and \<^verbatim>\<open>p3\<close> on \<^verbatim>\<open>n2\<close>, the state a run
  starts from, and the state after \<^verbatim>\<open>p1\<close> has been placed on \<^verbatim>\<open>n2\<close>.
\<close>

definition simNodeInfos :: "string \<rightharpoonup> NodeInfo" where
  "simNodeInfos = [''n1'' \<mapsto> \<lparr>node = Some 1, pods = [simPod ''p1'' ''n1'']\<rparr>,
                   ''n2'' \<mapsto> \<lparr>node = Some 2, pods = [simPod ''p3'' ''n2'']\<rparr>]"


definition simFinal :: sim_state where
  "simFinal = \<lparr>newHints = [''default/p1'' \<mapsto> ''n2''],
               store = simStore(2 := (simStore 2)\<lparr>Allocatable := Capacity (simStore 2)\<rparr>),
               evaluations = [(''n2'', ''default/p1'', True)]\<rparr>"





section \<open>Properties of the registry\<close>

subsection \<open>RegisterMig\<close>

lemma RegisterMig_loop_None:
  "(RegisterMig_loop deq g ms = None) = (\<forall>mi\<in>set ms. GceRef (config mi) \<noteq> GceRef g)"
  by (induction ms) (auto split: option.splits)

lemma RegisterMig_loop_Some:
  "RegisterMig_loop deq g ms = Some (b, ms') \<Longrightarrow>
   \<exists>mi. find (\<lambda>mi. GceRef (config mi) = GceRef g) ms = Some mi \<and>
        b = (\<not> DeepEqual deq (config mi) g) \<and> (\<not> b \<longrightarrow> ms' = ms) \<and>
        map (\<lambda>mi. GceRef (config mi)) ms' = map (\<lambda>mi. GceRef (config mi)) ms"
  by (induction ms arbitrary: b ms') (auto split: option.splits if_splits)

text \<open>
  C3, as amended. \<^verbatim>\<open>RegisterMig(g)\<close> returns true exactly when no registered group has the
  identity of \<open>g\<close>, or the first registered entry with that identity differs from \<open>g\<close>
  under \<^verbatim>\<open>reflect.DeepEqual\<close> on the whole struct, the back-reference to the manager
  included. When it returns false the manager is unchanged. For two groups that point
  at the same manager object the comparison is the one of the descriptive fields.
\<close>

theorem RegisterMig_true_iff:
  "(fst (RegisterMig deq g m) \<longleftrightarrow>
      (\<forall>mi\<in>set (migs m). GceRef (config mi) \<noteq> GceRef g) \<or>
      (\<exists>mi. find (\<lambda>mi. GceRef (config mi) = GceRef g) (migs m) = Some mi \<and>
            \<not> DeepEqual deq (config mi) g)) \<and>
   (\<not> fst (RegisterMig deq g m) \<longrightarrow> snd (RegisterMig deq g m) = m) \<and>
   (\<forall>old. gceManager old = gceManager g \<longrightarrow>
      DeepEqual deq old g = descriptiveFieldsEqual old g)"
proof (cases "RegisterMig_loop deq g (migs m)")
  case None
  then show ?thesis
    using RegisterMig_loop_None[of deq g "migs m"]
    by (simp add: RegisterMig_def DeepEqual_def)
next
  case (Some r)
  obtain b ms' where r: "r = (b, ms')" by (cases r)
  from Some r RegisterMig_loop_Some[of deq g "migs m" b ms']
  obtain mi where mi: "find (\<lambda>mi. GceRef (config mi) = GceRef g) (migs m) = Some mi"
    "b = (\<not> DeepEqual deq (config mi) g)" "\<not> b \<longrightarrow> ms' = migs m" by auto
  have ex: "\<not> (\<forall>mi\<in>set (migs m). GceRef (config mi) \<noteq> GceRef g)"
    using Some RegisterMig_loop_None[of deq g "migs m"] by simp
  show ?thesis using Some r mi ex
    by (auto simp add: RegisterMig_def DeepEqual_def)
qed

text \<open>
  The theorem at the test manager: registering the group it already holds returns false
  and leaves it as it was; registering the same group with other size bounds returns
  true.
\<close>

theorem RegisterMig_true_iff_witness:
  "\<not> fst (RegisterMig (\<lambda>p q. False) defaultPoolMig testManager) \<and>
   snd (RegisterMig (\<lambda>p q. False) defaultPoolMig testManager) = testManager \<and>
   fst (RegisterMig (\<lambda>p q. False) (defaultPoolMig\<lparr>maxSize := 12\<rparr>) testManager) \<and>
   DeepEqual (\<lambda>p q. False) defaultPoolMig defaultPoolMig"
proof -
  have f: "find (\<lambda>mi. GceRef (config mi) = GceRef defaultPoolMig) (migs testManager)
             = Some \<lparr>config = defaultPoolMig, basename = []\<rparr>"
    by (simp add: testManager_def)
  have d: "descriptiveFieldsEqual defaultPoolMig defaultPoolMig"
    by (simp add: descriptiveFieldsEqual_def)
  have d2: "\<not> descriptiveFieldsEqual defaultPoolMig (defaultPoolMig\<lparr>maxSize := 12\<rparr>)"
    by (simp add: descriptiveFieldsEqual_def defaultPoolMig_def)
  have i: "\<not> (\<forall>mi\<in>set (migs testManager). GceRef (config mi) \<noteq> GceRef defaultPoolMig)"
    by (simp add: testManager_def)
  show ?thesis
    using RegisterMig_true_iff[of "\<lambda>p q. False" defaultPoolMig testManager]
      RegisterMig_true_iff[of "\<lambda>p q. False" "defaultPoolMig\<lparr>maxSize := 12\<rparr>" testManager]
      f d d2 i
    by (auto simp add: DeepEqual_def)
qed

text \<open>
  C3 as stated fails: the group below has the descriptive fields of the registered one
  and points at another manager object (address 2, not deeply equal to the one at
  address 1). \<^verbatim>\<open>RegisterMig\<close> returns true, although the one entry of the registry has
  its identity and does not differ from it in any descriptive field.
\<close>

theorem RegisterMig_backref_counterexample:
  "fst (RegisterMig (\<lambda>p q. False) (defaultPoolMig\<lparr>gceManager := 2\<rparr>) testManager) \<and>
   map config (migs testManager) = [defaultPoolMig] \<and>
   GceRef defaultPoolMig = GceRef (defaultPoolMig\<lparr>gceManager := 2\<rparr>) \<and>
   descriptiveFieldsEqual defaultPoolMig (defaultPoolMig\<lparr>gceManager := 2\<rparr>)"
  by (simp add: RegisterMig_def DeepEqual_def descriptiveFieldsEqual_def
      defaultPoolMig_def testManager_def)

subsection \<open>regenerateCache\<close>

lemma regenerateCache_instances_Inr:
  "regenerateCache_instances cl g urls c = Inr c' \<Longrightarrow>
   c' ref = (if \<exists>u\<in>set urls. ParseInstanceUrl cl u = Inr ref then Some g else c ref)"
  by (induction urls arbitrary: c) (auto split: sum.splits if_splits)

lemma updateMigBasename_loop_config:
  "map config (updateMigBasename_loop ref b ms) = map config ms"
  by (induction ms) auto

lemma updateMigBasename_config:
  "map config (migs (updateMigBasename ref b m)) = map config (migs m)"
  by (simp add: updateMigBasename_def updateMigBasename_loop_config)

lemma updateMigBasename_other:
  "migCache (updateMigBasename ref b m) = migCache m" "mode (updateMigBasename ref b m) = mode m"
  by (simp_all add: updateMigBasename_def)

lemma regenerateCache_loop_None:
  "regenerateCache_loop cl ms m c = (None, m', c') \<Longrightarrow>
   map config (migs m') = map config (migs m) \<and> migCache m' = migCache m \<and> mode m' = mode m \<and>
   (\<forall>ref. (c' ref = None \<longleftrightarrow> c ref = None \<and> (\<forall>mi\<in>set ms. \<not> reports cl (config mi) ref)) \<and>
          (\<forall>g. c' ref = Some g \<longrightarrow>
             (c ref = Some g \<and> (\<forall>mi\<in>set ms. \<not> reports cl (config mi) ref)) \<or>
             (g \<in> config ` set ms \<and> reports cl g ref)))"
proof (induction ms arbitrary: m c)
  case Nil
  then show ?case by simp
next
  case (Cons mi ms)
  from Cons.prems obtain b urls c1 where
    get: "InstanceGroupManagers_Get cl (GceRef (config mi)) = Inr b" and
    lst: "ListManagedInstances cl (GceRef (config mi)) = Inr urls" and
    ins: "regenerateCache_instances cl (config mi) urls c = Inr c1" and
    rest: "regenerateCache_loop cl ms (updateMigBasename (GceRef (config mi)) b m) c1 = (None, m', c')"
    by (auto simp add: Let_def split: sum.splits)
  have c1: "\<And>ref. c1 ref = (if reports cl (config mi) ref then Some (config mi) else c ref)"
    using regenerateCache_instances_Inr[OF ins] lst by (simp add: reports_def)
  note IH = Cons.IH[OF rest]
  show ?case
  proof (intro conjI allI)
    show "map config (migs m') = map config (migs m)"
      using IH by (simp add: updateMigBasename_config)
    show "migCache m' = migCache m" "mode m' = mode m"
      using IH by (simp_all add: updateMigBasename_other)
  next
    fix ref
    show "(c' ref = None) = (c ref = None \<and> (\<forall>mi\<in>set (mi # ms). \<not> reports cl (config mi) ref))"
      using IH c1[of ref] by auto
  next
    fix ref g
    show "c' ref = Some g \<longrightarrow>
       c ref = Some g \<and> (\<forall>mi\<in>set (mi # ms). \<not> reports cl (config mi) ref) \<or>
       g \<in> config ` set (mi # ms) \<and> reports cl g ref"
    proof
      assume a: "c' ref = Some g"
      from IH have "(c1 ref = Some g \<and> (\<forall>mi\<in>set ms. \<not> reports cl (config mi) ref)) \<or>
             (g \<in> config ` set ms \<and> reports cl g ref)" using a by blast
      then show "c ref = Some g \<and> (\<forall>mi\<in>set (mi # ms). \<not> reports cl (config mi) ref) \<or>
       g \<in> config ` set (mi # ms) \<and> reports cl g ref"
        using c1[of ref] by (auto split: if_splits)
    qed
  qed
qed

lemma regenerateCache_success:
  assumes "regenerateCache cl m = (None, m')"
  shows "map config (migs m') = map config (migs m)"
    and "mode m' = mode m"
    and "(migCache m' ref = None) = (\<forall>mi\<in>set (migs m). \<not> reports cl (config mi) ref)"
    and "migCache m' ref = Some g \<Longrightarrow> g \<in> config ` set (migs m) \<and> reports cl g ref"
proof -
  from assms obtain m1 c1 where
    l: "regenerateCache_loop cl (migs m) m Map.empty = (None, m1, c1)" and
    m': "m' = m1\<lparr>migCache := c1\<rparr>"
    by (auto simp add: regenerateCache_def getMigs_def split: prod.splits option.splits)
  note L = regenerateCache_loop_None[OF l]
  show "map config (migs m') = map config (migs m)" using L m' by simp
  show "mode m' = mode m" using L m' by simp
  show "(migCache m' ref = None) = (\<forall>mi\<in>set (migs m). \<not> reports cl (config mi) ref)"
    using L m' by simp
  show "migCache m' ref = Some g \<Longrightarrow> g \<in> config ` set (migs m) \<and> reports cl g ref"
    using L m' by auto
qed

lemma regenerateCache_loop_frame:
  "regenerateCache_loop cl ms m c = (e, m', c') \<Longrightarrow>
   map config (migs m') = map config (migs m) \<and> migCache m' = migCache m \<and> mode m' = mode m"
proof (induction ms arbitrary: m c)
  case Nil
  then show ?case by simp
next
  case (Cons mi ms)
  show ?case
  proof (cases "InstanceGroupManagers_Get cl (GceRef (config mi))")
    case (Inl err)
    with Cons.prems show ?thesis by simp
  next
    case (Inr b)
    let ?m1 = "updateMigBasename (GceRef (config mi)) b m"
    have m1: "map config (migs ?m1) = map config (migs m) \<and> migCache ?m1 = migCache m \<and> mode ?m1 = mode m"
      by (simp add: updateMigBasename_config updateMigBasename_other)
    show ?thesis
    proof (cases "ListManagedInstances cl (GceRef (config mi))")
      case (Inl err)
      with Cons.prems Inr m1 show ?thesis by (auto simp add: Let_def)
    next
      case lst: (Inr urls)
      show ?thesis
      proof (cases "regenerateCache_instances cl (config mi) urls c")
        case (Inl err)
        with Cons.prems Inr lst m1 show ?thesis by (auto simp add: Let_def)
      next
        case ins: (Inr c1)
        with Cons.prems Inr lst have "regenerateCache_loop cl ms ?m1 c1 = (e, m', c')"
          by (simp add: Let_def)
        from Cons.IH[OF this] m1 show ?thesis by simp
      qed
    qed
  qed
qed

lemma regenerateCache_failure:
  assumes "regenerateCache cl m = (Some err, m')"
  shows "migCache m' = migCache m" and "map config (migs m') = map config (migs m)"
proof -
  from assms obtain c1 where
    l: "regenerateCache_loop cl (migs m) m Map.empty = (Some err, m', c1)"
    by (auto simp add: regenerateCache_def getMigs_def split: prod.splits option.splits)
  from regenerateCache_loop_frame[OF l]
  show "migCache m' = migCache m" and "map config (migs m') = map config (migs m)" by simp_all
qed

lemma regenerateCache_testManager:
  "regenerateCache testCloud testManager = (None, rebuiltManager)"
  by (simp add: regenerateCache_def getMigs_def testManager_def testCloud_def rebuiltManager_def
      updateMigBasename_def)

text \<open>
  C4. After any sequence of \<^verbatim>\<open>RegisterMig\<close> and \<^verbatim>\<open>UnregisterMig\<close> calls, a rebuild that
  succeeds leaves the registered groups as they were, and a cache whose keys are
  exactly the instances the cloud reports for the registered groups; every entry maps
  its instance to a registered group that reports it, so no entry refers to a group
  that is not registered, and an instance that one registered group alone reports
  resolves to that group.
\<close>

theorem regenerateCache_consistent:
  assumes "regenerateCache cl (apply_ops deq ops m0) = (None, m')"
  shows "map config (migs m') = map config (migs (apply_ops deq ops m0)) \<and>
         dom (migCache m') = {ref. \<exists>g\<in>config ` set (migs m'). reports cl g ref} \<and>
         (\<forall>ref g. migCache m' ref = Some g \<longrightarrow> g \<in> config ` set (migs m') \<and> reports cl g ref) \<and>
         (\<forall>ref g. g \<in> config ` set (migs m') \<and> reports cl g ref \<and>
                  (\<forall>g'\<in>config ` set (migs m'). reports cl g' ref \<longrightarrow> g' = g) \<longrightarrow>
                  migCache m' ref = Some g)"
proof -
  let ?m = "apply_ops deq ops m0"
  note R = regenerateCache_success[OF assms]
  have cs: "config ` set (migs m') = config ` set (migs ?m)"
    using R(1) by (metis list.set_map)
  have d: "dom (migCache m') = {ref. \<exists>g\<in>config ` set (migs m'). reports cl g ref}"
    unfolding cs using R(3) by (auto simp add: dom_def)
  have v: "\<forall>ref g. migCache m' ref = Some g \<longrightarrow> g \<in> config ` set (migs m') \<and> reports cl g ref"
    unfolding cs using R(4) by blast
  have u: "\<forall>ref g. g \<in> config ` set (migs m') \<and> reports cl g ref \<and>
                  (\<forall>g'\<in>config ` set (migs m'). reports cl g' ref \<longrightarrow> g' = g) \<longrightarrow>
                  migCache m' ref = Some g"
  proof (intro allI impI)
    fix ref g
    assume a: "g \<in> config ` set (migs m') \<and> reports cl g ref \<and>
                  (\<forall>g'\<in>config ` set (migs m'). reports cl g' ref \<longrightarrow> g' = g)"
    then have "ref \<in> dom (migCache m')" using d by blast
    then obtain g' where g': "migCache m' ref = Some g'" by blast
    with v have "g' \<in> config ` set (migs m') \<and> reports cl g' ref" by blast
    with a have "g' = g" by blast
    with g' show "migCache m' ref = Some g" by simp
  qed
  from R(1) d v u show ?thesis by blast
qed

text \<open>
  The theorem at the test manager, reached by registering the default pool's group in
  an empty registry and rebuilt against the test cloud.
\<close>

theorem regenerateCache_consistent_witness:
  "map config (migs rebuiltManager) = [defaultPoolMig] \<and>
   dom (migCache rebuiltManager) = {testInstance} \<and>
   migCache rebuiltManager testInstance = Some defaultPoolMig"
proof -
  have a: "apply_ops (\<lambda>p q. False) [Register defaultPoolMig] (testManager\<lparr>migs := []\<rparr>) = testManager"
    by (simp add: RegisterMig_def testManager_def)
  have r: "regenerateCache testCloud (apply_ops (\<lambda>p q. False) [Register defaultPoolMig] (testManager\<lparr>migs := []\<rparr>))
            = (None, rebuiltManager)"
    using a regenerateCache_testManager by simp
  have rep: "\<And>ref. reports testCloud defaultPoolMig ref = (ref = testInstance)"
    by (auto simp add: reports_def testCloud_def)
  have ms: "config ` set (migs rebuiltManager) = {defaultPoolMig}"
    by (simp add: rebuiltManager_def)
  show ?thesis
    using regenerateCache_consistent[OF r] a rep ms
    by (simp add: testManager_def)
qed


subsection \<open>GetMigForInstance\<close>

lemma GetMigForInstance_loop_no_match:
  "\<forall>mi\<in>set ms. \<not> matchesInstance inst mi \<Longrightarrow> GetMigForInstance_loop cl inst ms m = (Inr None, m)"
  by (induction ms) (auto simp add: matchesInstance_def)

lemma GetMigForInstance_loop_match:
  "\<exists>mi\<in>set ms. matchesInstance inst mi \<Longrightarrow>
   GetMigForInstance_loop cl inst ms m =
     (case regenerateCache cl m of
        (Some err, m') \<Rightarrow> (Inl (ErrorWhileLookingForMig inst err), m')
      | (None, m') \<Rightarrow>
          (case migCache m' inst of
             Some g \<Rightarrow> (Inr (Some g), m')
           | None \<Rightarrow> (Inl (DoesNotBelongToAnyConfiguredMig inst), m')))"
  by (induction ms) (auto simp add: matchesInstance_def)

text \<open>
  C2. An instance in the cache resolves to the cached group and nothing changes.
  Otherwise, when no registered group has its project and zone and a basename that is
  a prefix of its name, the result is \<^verbatim>\<open>(nil, nil)\<close> and nothing changes. Otherwise the
  cache is rebuilt once: after a rebuild that succeeds the cache holds exactly the
  instances reported for the registered groups and the lookup is repeated in it, giving
  the group found or the error that the instance belongs to no configured group. A
  rebuild that fails leaves the cache as it was and gives the error of the lookup that
  wraps the failure.
\<close>

theorem GetMigForInstance_cases:
  "(\<forall>g. migCache m inst = Some g \<longrightarrow> GetMigForInstance cl inst m = (Inr (Some g), m)) \<and>
   (migCache m inst = None \<and> (\<forall>mi\<in>set (migs m). \<not> matchesInstance inst mi) \<longrightarrow>
      GetMigForInstance cl inst m = (Inr None, m)) \<and>
   (migCache m inst = None \<and> (\<exists>mi\<in>set (migs m). matchesInstance inst mi) \<longrightarrow>
      (\<forall>m'. regenerateCache cl m = (None, m') \<longrightarrow>
         (\<forall>ref. (migCache m' ref = None) = (\<forall>mi\<in>set (migs m). \<not> reports cl (config mi) ref)) \<and>
         (\<forall>g. migCache m' inst = Some g \<longrightarrow> GetMigForInstance cl inst m = (Inr (Some g), m')) \<and>
         (migCache m' inst = None \<longrightarrow>
            GetMigForInstance cl inst m = (Inl (DoesNotBelongToAnyConfiguredMig inst), m'))) \<and>
      (\<forall>err m'. regenerateCache cl m = (Some err, m') \<longrightarrow>
         migCache m' = migCache m \<and>
         GetMigForInstance cl inst m = (Inl (ErrorWhileLookingForMig inst err), m')))"
proof (intro conjI allI impI)
  fix g assume "migCache m inst = Some g"
  then show "GetMigForInstance cl inst m = (Inr (Some g), m)"
    by (simp add: GetMigForInstance_def)
next
  assume "migCache m inst = None \<and> (\<forall>mi\<in>set (migs m). \<not> matchesInstance inst mi)"
  then show "GetMigForInstance cl inst m = (Inr None, m)"
    by (simp add: GetMigForInstance_def getMigs_def GetMigForInstance_loop_no_match)
next
  fix m' ref
  assume "migCache m inst = None \<and> (\<exists>mi\<in>set (migs m). matchesInstance inst mi)"
    and r: "regenerateCache cl m = (None, m')"
  show "(migCache m' ref = None) = (\<forall>mi\<in>set (migs m). \<not> reports cl (config mi) ref)"
    by (rule regenerateCache_success(3)[OF r])
next
  fix m' g
  assume a: "migCache m inst = None \<and> (\<exists>mi\<in>set (migs m). matchesInstance inst mi)"
    and r: "regenerateCache cl m = (None, m')" and c: "migCache m' inst = Some g"
  from a have "GetMigForInstance cl inst m = GetMigForInstance_loop cl inst (migs m) m"
    by (simp add: GetMigForInstance_def getMigs_def)
  also have "\<dots> = (Inr (Some g), m')"
    using a r c by (simp add: GetMigForInstance_loop_match)
  finally show "GetMigForInstance cl inst m = (Inr (Some g), m')" .
next
  fix m'
  assume a: "migCache m inst = None \<and> (\<exists>mi\<in>set (migs m). matchesInstance inst mi)"
    and r: "regenerateCache cl m = (None, m')" and c: "migCache m' inst = None"
  from a have "GetMigForInstance cl inst m = GetMigForInstance_loop cl inst (migs m) m"
    by (simp add: GetMigForInstance_def getMigs_def)
  also have "\<dots> = (Inl (DoesNotBelongToAnyConfiguredMig inst), m')"
    using a r c by (simp add: GetMigForInstance_loop_match)
  finally show "GetMigForInstance cl inst m = (Inl (DoesNotBelongToAnyConfiguredMig inst), m')" .
next
  fix err m'
  assume a: "migCache m inst = None \<and> (\<exists>mi\<in>set (migs m). matchesInstance inst mi)"
    and r: "regenerateCache cl m = (Some err, m')"
  show "migCache m' = migCache m" by (rule regenerateCache_failure(1)[OF r])
next
  fix err m'
  assume a: "migCache m inst = None \<and> (\<exists>mi\<in>set (migs m). matchesInstance inst mi)"
    and r: "regenerateCache cl m = (Some err, m')"
  from a have "GetMigForInstance cl inst m = GetMigForInstance_loop cl inst (migs m) m"
    by (simp add: GetMigForInstance_def getMigs_def)
  also have "\<dots> = (Inl (ErrorWhileLookingForMig inst err), m')"
    using a r by (simp add: GetMigForInstance_loop_match)
  finally show "GetMigForInstance cl inst m = (Inl (ErrorWhileLookingForMig inst err), m')" .
qed

text \<open>
  The theorem at the test manager: the instance is not cached, the group's empty
  basename is a prefix of its name, the rebuild finds it; a second lookup is answered
  from the cache.
\<close>

theorem GetMigForInstance_cases_witness:
  "GetMigForInstance testCloud testInstance testManager = (Inr (Some defaultPoolMig), rebuiltManager) \<and>
   GetMigForInstance testCloud testInstance rebuiltManager = (Inr (Some defaultPoolMig), rebuiltManager)"
proof -
  have 1: "migCache testManager testInstance = None \<and>
           (\<exists>mi\<in>set (migs testManager). matchesInstance testInstance mi)"
    by (simp add: testManager_def matchesInstance_def testInstance_def defaultPoolMig_def)
  have 2: "migCache rebuiltManager testInstance = Some defaultPoolMig"
    by (simp add: rebuiltManager_def)
  show ?thesis
    using GetMigForInstance_cases[of testManager testInstance testCloud]
      GetMigForInstance_cases[of rebuiltManager testInstance testCloud]
      1 2 regenerateCache_testManager
    by blast
qed

subsection \<open>fetchAllNodePoolsGkeNapImpl\<close>

















text \<open>The two ways a pass ends before it looks at any pool.\<close>

lemma fetchAllNodePoolsGkeNapImpl_wrong_mode:
  "mode m \<noteq> ModeGKENAP \<Longrightarrow>
   fetchAllNodePoolsGkeNapImpl deq parseGceUrl cl self listing m = Aborted"
  by (simp add: fetchAllNodePoolsGkeNapImpl_def)

lemma fetchAllNodePoolsGkeNapImpl_listing_fails:
  "mode m = ModeGKENAP \<Longrightarrow>
   fetchAllNodePoolsGkeNapImpl deq parseGceUrl cl self (Inl err) m = Returned (Some err, m, [])"
  by (simp add: fetchAllNodePoolsGkeNapImpl_def)

section \<open>Properties of the utilization\<close>

lemma containersRequest_sum:
  "containersRequest r cs acc = acc + sum_list (map (containerRequest r) cs)"
  by (induction cs arbitrary: acc) (auto simp add: containerRequest_def split: option.splits)

lemma podsRequestLoop_sum:
  "podsRequestLoop r ps acc = acc + requestedBy r ps"
  by (induction ps arbitrary: acc) (auto simp add: requestedBy_def containersRequest_sum)

lemma calculateUtilizationOfResource_cases:
  "calculateUtilizationOfResource ar nd ni r =
     (case Capacity nd r of
        None \<Rightarrow> Inl (FailedToGet r (node_Name nd))
      | Some c \<Rightarrow> if MilliValue ar c = 0 then Inl (IsZeroAt r (node_Name nd))
                  else Inr (float64_div ar (float64 ar (MilliValue ar (requestedBy r (pods ni))))
                                           (float64 ar (MilliValue ar c))))"
  by (simp add: calculateUtilizationOfResource_def podsRequestLoop_sum split: option.splits)

text \<open>
  C5. \<^verbatim>\<open>CalculateUtilization\<close> returns an error whenever the node's capacity for CPU or
  for memory is absent or has the milli-value zero, and otherwise the larger
  (\<^verbatim>\<open>math.Max\<close>) of the two fractions: the milli-value of the sum of the requests of the
  pods' containers for the resource, over the milli-value of the node's capacity for
  it, both converted to \<^verbatim>\<open>float64\<close> and divided there. This holds whatever the machine
  arithmetic does on large or fractional values.
\<close>

theorem CalculateUtilization_max_or_error:
  "(Capacity nd ResourceCPU = None \<or>
    (\<exists>c. Capacity nd ResourceCPU = Some c \<and> MilliValue ar c = 0) \<or>
    Capacity nd ResourceMemory = None \<or>
    (\<exists>m. Capacity nd ResourceMemory = Some m \<and> MilliValue ar m = 0)
      \<longrightarrow> (\<exists>err. CalculateUtilization ar nd ni = Inl err)) \<and>
   (\<forall>c m. Capacity nd ResourceCPU = Some c \<and> MilliValue ar c \<noteq> 0 \<and>
          Capacity nd ResourceMemory = Some m \<and> MilliValue ar m \<noteq> 0
      \<longrightarrow> CalculateUtilization ar nd ni =
            Inr (math_Max ar
                   (float64_div ar (float64 ar (MilliValue ar (requestedBy ResourceCPU (pods ni))))
                                   (float64 ar (MilliValue ar c)))
                   (float64_div ar (float64 ar (MilliValue ar (requestedBy ResourceMemory (pods ni))))
                                   (float64 ar (MilliValue ar m)))))"
  by (auto simp add: CalculateUtilization_def calculateUtilizationOfResource_cases
      split: option.splits sum.splits)

lemma exactArithmetic_MilliValue: "MilliValue exactArithmetic 1 = 1000" "MilliValue exactArithmetic 10 = 10000"
  "MilliValue exactArithmetic (3/10) = 300" "MilliValue exactArithmetic 0 = 0"
  by (simp_all add: exactArithmetic_def)

lemma exactArithmetic_float64: "float64 exactArithmetic 1000 = 1000" "float64 exactArithmetic 300 = 300"
  "float64 exactArithmetic 0 = 0" "float64 exactArithmetic 10000 = 10000"
  by (simp_all add: exactArithmetic_def)

text \<open>
  The theorem at the test node with the test pod, in the exact arithmetic: 300 of 1000
  milli-CPU; and at the same node with no memory capacity, and with a CPU capacity of
  zero.
\<close>

theorem CalculateUtilization_max_or_error_witness:
  "CalculateUtilization exactArithmetic testNode \<lparr>node = None, pods = [testPod]\<rparr> = Inr (3 / 10) \<and>
   (\<exists>err. CalculateUtilization exactArithmetic (testNode\<lparr>Capacity := [ResourceCPU \<mapsto> 1]\<rparr>)
            \<lparr>node = None, pods = [testPod]\<rparr> = Inl err) \<and>
   (\<exists>err. CalculateUtilization exactArithmetic
            (testNode\<lparr>Capacity := [ResourceCPU \<mapsto> 0, ResourceMemory \<mapsto> 10]\<rparr>)
            \<lparr>node = None, pods = [testPod]\<rparr> = Inl err)"
proof -
  let ?ni = "\<lparr>node = None, pods = [testPod]\<rparr>"
  have c: "Capacity testNode ResourceCPU = Some 1 \<and> MilliValue exactArithmetic 1 \<noteq> 0 \<and>
           Capacity testNode ResourceMemory = Some 10 \<and> MilliValue exactArithmetic 10 \<noteq> 0"
    by (simp add: testNode_def ResourceCPU_def ResourceMemory_def exactArithmetic_MilliValue)
  have r: "requestedBy ResourceCPU (pods ?ni) = 3 / 10"
          "requestedBy ResourceMemory (pods ?ni) = 0"
    by (simp_all add: requestedBy_def containerRequest_def testPod_def ResourceCPU_def ResourceMemory_def)
  have a: "Capacity (testNode\<lparr>Capacity := [ResourceCPU \<mapsto> 1]\<rparr>) ResourceMemory = None"
    by (simp add: ResourceCPU_def ResourceMemory_def)
  have z: "\<exists>c. Capacity (testNode\<lparr>Capacity := [ResourceCPU \<mapsto> 0, ResourceMemory \<mapsto> 10]\<rparr>) ResourceCPU = Some c
             \<and> MilliValue exactArithmetic c = 0"
    by (simp add: ResourceCPU_def ResourceMemory_def exactArithmetic_MilliValue)
  have "CalculateUtilization exactArithmetic testNode ?ni =
          Inr (math_Max exactArithmetic
                 (float64_div exactArithmetic
                    (float64 exactArithmetic (MilliValue exactArithmetic (requestedBy ResourceCPU (pods ?ni))))
                    (float64 exactArithmetic (MilliValue exactArithmetic 1)))
                 (float64_div exactArithmetic
                    (float64 exactArithmetic (MilliValue exactArithmetic (requestedBy ResourceMemory (pods ?ni))))
                    (float64 exactArithmetic (MilliValue exactArithmetic 10))))"
    using CalculateUtilization_max_or_error[of testNode exactArithmetic ?ni] c by blast
  then have 1: "CalculateUtilization exactArithmetic testNode ?ni = Inr (3 / 10)"
    unfolding r exactArithmetic_MilliValue exactArithmetic_float64 by (simp add: exactArithmetic_def)
  have 2: "\<exists>err. CalculateUtilization exactArithmetic (testNode\<lparr>Capacity := [ResourceCPU \<mapsto> 1]\<rparr>) ?ni = Inl err"
    using CalculateUtilization_max_or_error[of "testNode\<lparr>Capacity := [ResourceCPU \<mapsto> 1]\<rparr>"
        exactArithmetic ?ni] a by blast
  have 3: "\<exists>err. CalculateUtilization exactArithmetic
      (testNode\<lparr>Capacity := [ResourceCPU \<mapsto> 0, ResourceMemory \<mapsto> 10]\<rparr>) ?ni = Inl err"
    using CalculateUtilization_max_or_error[of "testNode\<lparr>Capacity := [ResourceCPU \<mapsto> 0, ResourceMemory \<mapsto> 10]\<rparr>"
        exactArithmetic ?ni] z by blast
  from 1 2 3 show ?thesis by blast
qed

section \<open>Properties of the unneeded-node update\<close>

lemma capCandidates_nonEmpty:
  "filter (\<lambda>n. \<not> isEmpty n) (capCandidates opts k isEmpty cs) =
   take (ScaleDownNonEmptyCandidatesCount opts)
     (take (candidatesPoolSize opts k) (filter (\<lambda>n. \<not> isEmpty n) cs))"
proof -
  have "filter (\<lambda>n. \<not> isEmpty n) (filter isEmpty cs) = []"
    by (induction cs) auto
  moreover have "filter (\<lambda>n. \<not> isEmpty n)
      (take (ScaleDownNonEmptyCandidatesCount opts)
        (take (candidatesPoolSize opts k) (filter (\<lambda>n. \<not> isEmpty n) cs))) =
      take (ScaleDownNonEmptyCandidatesCount opts)
        (take (candidatesPoolSize opts k) (filter (\<lambda>n. \<not> isEmpty n) cs))"
    by (rule filter_True) (auto dest!: in_set_takeD)
  ultimately show ?thesis by (simp add: capCandidates_def)
qed

lemma candidatesPoolSize_le:
  "real (candidatesPoolSize opts k) \<le>
   max (real k * ScaleDownCandidatesPoolRatio opts) (real (ScaleDownCandidatesPoolMinCount opts))"
proof -
  let ?x = "max (real k * ScaleDownCandidatesPoolRatio opts) (real (ScaleDownCandidatesPoolMinCount opts))"
  have "0 \<le> ?x" by (simp add: le_max_iff_disj)
  then have "0 \<le> \<lfloor>?x\<rfloor>" by simp
  then have "real (nat \<lfloor>?x\<rfloor>) = of_int \<lfloor>?x\<rfloor>" by simp
  also have "\<dots> \<le> ?x" by (rule of_int_floor_le)
  finally show ?thesis by (simp add: candidatesPoolSize_def)
qed

text \<open>
  C8. In the unneeded set the number of non-empty candidates is at most the smaller of
  the configured maximum and the pool bound, the larger of the ratio of the total
  number of nodes and the floor; every empty node that qualifies is in the set.
\<close>

theorem unneeded_nonEmpty_capped:
  "real (length (filter (\<lambda>n. \<not> isEmpty n)
           (unneededNodesList opts threshold utilization isEmpty excluded allNodes nodesToCheck)))
     \<le> min (real (ScaleDownNonEmptyCandidatesCount opts))
           (max (real (length allNodes) * ScaleDownCandidatesPoolRatio opts)
                (real (ScaleDownCandidatesPoolMinCount opts))) \<and>
   (\<forall>n\<in>set nodesToCheck.
      isEmpty n \<and> qualifies threshold utilization isEmpty excluded n \<longrightarrow>
      n \<in> set (unneededNodesList opts threshold utilization isEmpty excluded allNodes nodesToCheck))"
proof
  let ?cs = "filter (qualifies threshold utilization isEmpty excluded) nodesToCheck"
  let ?ne = "filter (\<lambda>n. \<not> isEmpty n) ?cs"
  have len: "length (filter (\<lambda>n. \<not> isEmpty n)
           (unneededNodesList opts threshold utilization isEmpty excluded allNodes nodesToCheck))
     = min (length ?ne) (min (candidatesPoolSize opts (length allNodes)) (ScaleDownNonEmptyCandidatesCount opts))"
    by (simp add: unneededNodesList_def capCandidates_nonEmpty min.commute min.left_commute)
  have 1: "real (min (length ?ne) (min (candidatesPoolSize opts (length allNodes)) (ScaleDownNonEmptyCandidatesCount opts)))
        \<le> real (ScaleDownNonEmptyCandidatesCount opts)" by simp
  have 2: "real (min (length ?ne) (min (candidatesPoolSize opts (length allNodes)) (ScaleDownNonEmptyCandidatesCount opts)))
        \<le> real (candidatesPoolSize opts (length allNodes))" by simp
  from 2 candidatesPoolSize_le[of opts "length allNodes"]
  have 3: "real (min (length ?ne) (min (candidatesPoolSize opts (length allNodes)) (ScaleDownNonEmptyCandidatesCount opts)))
        \<le> max (real (length allNodes) * ScaleDownCandidatesPoolRatio opts)
                (real (ScaleDownCandidatesPoolMinCount opts))" by linarith
  show "real (length (filter (\<lambda>n. \<not> isEmpty n)
           (unneededNodesList opts threshold utilization isEmpty excluded allNodes nodesToCheck)))
     \<le> min (real (ScaleDownNonEmptyCandidatesCount opts))
           (max (real (length allNodes) * ScaleDownCandidatesPoolRatio opts)
                (real (ScaleDownCandidatesPoolMinCount opts)))"
    unfolding len using 1 3 by simp
next
  show "\<forall>n\<in>set nodesToCheck.
      isEmpty n \<and> qualifies threshold utilization isEmpty excluded n \<longrightarrow>
      n \<in> set (unneededNodesList opts threshold utilization isEmpty excluded allNodes nodesToCheck)"
    by (simp add: unneededNodesList_def capCandidates_def)
qed

text \<open>
  The theorem at three nodes that all qualify, the first of them empty, with a cap of
  one non-empty candidate: the empty node and one other are kept.
\<close>

theorem unneeded_nonEmpty_capped_witness:
  "unneededNodesList testOptions (35 / 100) (\<lambda>n. 1 / 10) (\<lambda>n. n = 0) (\<lambda>n. False)
     [0, 1, 2 :: nat] [0, 1, 2] = [0, 1] \<and>
   real (length (filter (\<lambda>n. \<not> n = 0)
     (unneededNodesList testOptions (35 / 100) (\<lambda>n. 1 / 10) (\<lambda>n. n = 0) (\<lambda>n. False)
        [0, 1, 2 :: nat] [0, 1, 2]))) \<le> 1 \<and>
   (0::nat) \<in> set (unneededNodesList testOptions (35 / 100) (\<lambda>n. 1 / 10) (\<lambda>n. n = 0) (\<lambda>n. False)
        [0, 1, 2 :: nat] [0, 1, 2])"
proof -
  have q: "\<And>n::nat. qualifies (35 / 100) (\<lambda>n. 1 / 10) (\<lambda>n. n = 0) (\<lambda>n. False) n"
    by (simp add: qualifies_def)
  have p: "candidatesPoolSize testOptions 3 = 1000"
    by (simp add: candidatesPoolSize_def testOptions_def)
  have e: "unneededNodesList testOptions (35 / 100) (\<lambda>n. 1 / 10) (\<lambda>n. n = 0) (\<lambda>n. False)
     [0, 1, 2 :: nat] [0, 1, 2] = [0, 1]"
    by (simp add: unneededNodesList_def capCandidates_def qualifies_def candidatesPoolSize_def
        testOptions_def)
  show ?thesis
    using unneeded_nonEmpty_capped[of "\<lambda>n. n = 0" testOptions "35 / 100" "\<lambda>n. 1 / 10" "\<lambda>n. False"
        "[0, 1, 2 :: nat]" "[0, 1, 2]"] q e
    by (simp add: testOptions_def)
qed

section \<open>Properties of the removal simulator\<close>

subsection \<open>What the node objects and the hints go through\<close>

lemma store_step_refl: "store_step st st"
  by (simp add: store_step_def)

lemma store_step_trans:
  "store_step st st' \<Longrightarrow> store_step st' st'' \<Longrightarrow> store_step st st''"
  unfolding store_step_def
proof (intro allI)
  fix a
  assume 1: "\<forall>a. st' a = st a \<or> st' a = (st a)\<lparr>Allocatable := Capacity (st a)\<rparr>"
    and 2: "\<forall>a. st'' a = st' a \<or> st'' a = (st' a)\<lparr>Allocatable := Capacity (st' a)\<rparr>"
  from 1 have "st' a = st a \<or> st' a = (st a)\<lparr>Allocatable := Capacity (st a)\<rparr>" by blast
  moreover from 2 have "st'' a = st' a \<or> st'' a = (st' a)\<lparr>Allocatable := Capacity (st' a)\<rparr>" by blast
  ultimately show "st'' a = st a \<or> st'' a = (st a)\<lparr>Allocatable := Capacity (st a)\<rparr>"
    by auto
qed

lemma store_step_fields:
  assumes "store_step st st'"
  shows "node_Name (st' a) = node_Name (st a)" and "Capacity (st' a) = Capacity (st a)"
    and "Allocatable (st a) = Capacity (st a) \<Longrightarrow> Allocatable (st' a) = Capacity (st' a)"
proof -
  from assms have d: "st' a = st a \<or> st' a = (st a)\<lparr>Allocatable := Capacity (st a)\<rparr>"
    by (simp add: store_step_def)
  from d show "node_Name (st' a) = node_Name (st a)" by auto
  from d show "Capacity (st' a) = Capacity (st a)" by auto
  from d show "Allocatable (st a) = Capacity (st a) \<Longrightarrow> Allocatable (st' a) = Capacity (st' a)" by auto
qed

lemma hints_step_refl: "hints_step keys b h h"
  by (simp add: hints_step_def)

lemma hints_step_trans:
  "hints_step k1 b h h' \<Longrightarrow> hints_step k2 b h' h'' \<Longrightarrow> hints_step (k1 \<union> k2) b h h''"
  unfolding hints_step_def by (metis UnCI)

lemma hints_step_mono:
  "hints_step k1 b h h' \<Longrightarrow> k1 \<subseteq> k2 \<Longrightarrow> hints_step k2 b h h'"
  unfolding hints_step_def by blast

lemma hints_step_dom: "hints_step keys b h h' \<Longrightarrow> dom h \<subseteq> dom h'"
  unfolding hints_step_def by (metis domD domI subsetI)

lemma hints_step_keeps:
  "hints_step keys b h h' \<Longrightarrow> \<exists>dest. h k = Some dest \<and> dest \<noteq> b \<Longrightarrow>
   \<exists>dest. h' k = Some dest \<and> dest \<noteq> b"
  unfolding hints_step_def by metis

lemma evaluated_ok_step:
  assumes "evaluated_ok nodeInfos s" and "store_step (store s) (store s')"
    and "evaluations s' = evaluations s"
  shows "evaluated_ok nodeInfos s'"
  unfolding evaluated_ok_def
proof
  fix e assume "e \<in> set (evaluations s')"
  then have "e \<in> set (evaluations s)" using assms(3) by simp
  with assms(1) obtain ni a where
    n: "nodeInfos (fst e) = Some ni" "node ni = Some a" "Allocatable (store s a) = Capacity (store s a)"
    unfolding evaluated_ok_def by blast
  from store_step_fields(3)[OF assms(2) n(3)] n
  show "\<exists>ni a. nodeInfos (fst e) = Some ni \<and> node ni = Some a \<and>
               Allocatable (store s' a) = Capacity (store s' a)" by blast
qed

lemma podKey_cleared: "podKey (p\<lparr>Spec_NodeName := n\<rparr>) = podKey p"
  by (simp add: podKey_def)


subsection \<open>tryNodeForPod\<close>

lemma tryNodeForPod_cases:
  assumes "tryNodeForPod env nodeInfos nodename pod (nn, s) = Returned (ok, nn', s')"
  shows "(\<not> ok \<and> nn' = nn \<and> s' = s \<and> nn nodename = None \<and> nodeInfos nodename = None) \<or>
         (\<exists>ni a. (nn nodename = Some ni \<or> (nn nodename = None \<and> nodeInfos nodename = Some ni)) \<and>
            node ni = Some a \<and>
            store s' = (store s)(a := (store s a)\<lparr>Allocatable := Capacity (store s a)\<rparr>) \<and>
            evaluations s' = evaluations s @ [(nodename, podKey pod, ok)] \<and>
            ok = CheckPredicates env pod (pods ni) (store s' a) \<and>
            newHints s' = (if ok then (newHints s)(podKey pod \<mapsto> nodename) else newHints s) \<and>
            nn' = (if ok then nn(nodename \<mapsto> \<lparr>node = Some a, pods = pods ni @ [pod]\<rparr>) else nn))"
  using assms
  by (auto simp add: tryNodeForPod_def Let_def split: option.splits if_splits)

lemma tryNodeForPod_step:
  assumes r: "tryNodeForPod env nodeInfos nodename pod (nn, s) = Returned (ok, nn', s')"
    and nb: "nodename \<noteq> bannedNode"
  shows "store_step (store s) (store s')"
    and "hints_step {podKey pod} bannedNode (newHints s) (newHints s')"
    and "ok \<Longrightarrow> newHints s' (podKey pod) = Some nodename"
    and "overlay_ok nodeInfos nn \<Longrightarrow> overlay_ok nodeInfos nn'"
    and "overlay_ok nodeInfos nn \<Longrightarrow> evaluated_ok nodeInfos s \<Longrightarrow> evaluated_ok nodeInfos s'"
proof -
  note c = tryNodeForPod_cases[OF r]
  show "store_step (store s) (store s')"
    using c by (auto simp add: store_step_def)
  from c have h: "newHints s' = newHints s \<or> newHints s' = (newHints s)(podKey pod \<mapsto> nodename)"
    by (auto split: if_splits)
  then show "hints_step {podKey pod} bannedNode (newHints s) (newHints s')"
  proof
    assume "newHints s' = newHints s"
    then show ?thesis by (simp add: hints_step_def)
  next
    assume "newHints s' = (newHints s)(podKey pod \<mapsto> nodename)"
    then show ?thesis using nb by (simp add: hints_step_def)
  qed
  show "ok \<Longrightarrow> newHints s' (podKey pod) = Some nodename"
    using c by auto
  show o: "overlay_ok nodeInfos nn \<Longrightarrow> overlay_ok nodeInfos nn'"
  proof -
    assume ov: "overlay_ok nodeInfos nn"
    from c show "overlay_ok nodeInfos nn'"
    proof
      assume "\<not> ok \<and> nn' = nn \<and> s' = s \<and> nn nodename = None \<and> nodeInfos nodename = None"
      with ov show ?thesis by simp
    next
      assume "\<exists>ni a. (nn nodename = Some ni \<or> (nn nodename = None \<and> nodeInfos nodename = Some ni)) \<and>
            node ni = Some a \<and>
            store s' = (store s)(a := (store s a)\<lparr>Allocatable := Capacity (store s a)\<rparr>) \<and>
            evaluations s' = evaluations s @ [(nodename, podKey pod, ok)] \<and>
            ok = CheckPredicates env pod (pods ni) (store s' a) \<and>
            newHints s' = (if ok then (newHints s)(podKey pod \<mapsto> nodename) else newHints s) \<and>
            nn' = (if ok then nn(nodename \<mapsto> \<lparr>node = Some a, pods = pods ni @ [pod]\<rparr>) else nn)"
      then obtain ni a where
        f: "nn nodename = Some ni \<or> (nn nodename = None \<and> nodeInfos nodename = Some ni)"
          "node ni = Some a"
          "nn' = (if ok then nn(nodename \<mapsto> \<lparr>node = Some a, pods = pods ni @ [pod]\<rparr>) else nn)"
        by blast
      from f(1) f(2) ov obtain ni0 where ni0: "nodeInfos nodename = Some ni0" "node ni0 = Some a"
        unfolding overlay_ok_def by fastforce
      show ?thesis
        unfolding overlay_ok_def f(3)
        using ov ni0 by (auto simp add: overlay_ok_def)
    qed
  qed
  show "overlay_ok nodeInfos nn \<Longrightarrow> evaluated_ok nodeInfos s \<Longrightarrow> evaluated_ok nodeInfos s'"
  proof -
    assume ov: "overlay_ok nodeInfos nn" and ev: "evaluated_ok nodeInfos s"
    from c show "evaluated_ok nodeInfos s'"
    proof
      assume "\<not> ok \<and> nn' = nn \<and> s' = s \<and> nn nodename = None \<and> nodeInfos nodename = None"
      with ev show ?thesis by simp
    next
      assume "\<exists>ni a. (nn nodename = Some ni \<or> (nn nodename = None \<and> nodeInfos nodename = Some ni)) \<and>
            node ni = Some a \<and>
            store s' = (store s)(a := (store s a)\<lparr>Allocatable := Capacity (store s a)\<rparr>) \<and>
            evaluations s' = evaluations s @ [(nodename, podKey pod, ok)] \<and>
            ok = CheckPredicates env pod (pods ni) (store s' a) \<and>
            newHints s' = (if ok then (newHints s)(podKey pod \<mapsto> nodename) else newHints s) \<and>
            nn' = (if ok then nn(nodename \<mapsto> \<lparr>node = Some a, pods = pods ni @ [pod]\<rparr>) else nn)"
      then obtain ni a where
        f: "nn nodename = Some ni \<or> (nn nodename = None \<and> nodeInfos nodename = Some ni)"
          "node ni = Some a"
          "store s' = (store s)(a := (store s a)\<lparr>Allocatable := Capacity (store s a)\<rparr>)"
          "evaluations s' = evaluations s @ [(nodename, podKey pod, ok)]"
        by blast
      from f(1) f(2) ov obtain ni0 where ni0: "nodeInfos nodename = Some ni0" "node ni0 = Some a"
        unfolding overlay_ok_def by fastforce
      have ss: "store_step (store s) (store s')"
        using f(3) by (auto simp add: store_step_def)
      have new: "Allocatable (store s' a) = Capacity (store s' a)"
        using f(3) by simp
      show ?thesis
        unfolding evaluated_ok_def
      proof
        fix e assume "e \<in> set (evaluations s')"
        then have "e \<in> set (evaluations s) \<or> e = (nodename, podKey pod, ok)"
          using f(4) by auto
        then show "\<exists>ni a. nodeInfos (fst e) = Some ni \<and> node ni = Some a \<and>
               Allocatable (store s' a) = Capacity (store s' a)"
        proof
          assume "e \<in> set (evaluations s)"
          with ev obtain ni1 a1 where
            n: "nodeInfos (fst e) = Some ni1" "node ni1 = Some a1"
               "Allocatable (store s a1) = Capacity (store s a1)"
            unfolding evaluated_ok_def by blast
          from store_step_fields(3)[OF ss n(3)] n show ?thesis by blast
        next
          assume "e = (nodename, podKey pod, ok)"
          with ni0 new show ?thesis by auto
        qed
      qed
    qed
  qed
qed


subsection \<open>findPlaceFor\<close>

lemma run_step_refl: "run_step nodeInfos keys b ns ns"
  by (simp add: run_step_def store_step_refl hints_step_refl)

lemma run_step_trans:
  assumes "run_step nodeInfos k1 b ns ns'" and "run_step nodeInfos k2 b ns' ns''"
  shows "run_step nodeInfos (k1 \<union> k2) b ns ns''"
proof -
  from assms have "store_step (store (snd ns)) (store (snd ns''))"
    unfolding run_step_def using store_step_trans by blast
  moreover from assms have "hints_step (k1 \<union> k2) b (newHints (snd ns)) (newHints (snd ns''))"
    unfolding run_step_def using hints_step_trans by blast
  moreover from assms have "overlay_ok nodeInfos (fst ns) \<longrightarrow> overlay_ok nodeInfos (fst ns'')"
    unfolding run_step_def by blast
  moreover from assms have "overlay_ok nodeInfos (fst ns) \<and> evaluated_ok nodeInfos (snd ns)
         \<longrightarrow> evaluated_ok nodeInfos (snd ns'')"
    unfolding run_step_def by blast
  ultimately show ?thesis unfolding run_step_def by blast
qed

lemma run_step_mono:
  "run_step nodeInfos k1 b ns ns' \<Longrightarrow> k1 \<subseteq> k2 \<Longrightarrow> run_step nodeInfos k2 b ns ns'"
  unfolding run_step_def using hints_step_mono by blast

lemma tryNodeForPod_run:
  assumes "tryNodeForPod env nodeInfos nodename pod ns = Returned (ok, ns')"
    and "nodename \<noteq> bannedNode"
  shows "run_step nodeInfos {podKey pod} bannedNode ns ns'"
    and "ok \<Longrightarrow> newHints (snd ns') (podKey pod) = Some nodename"
proof -
  obtain nn s where ns: "ns = (nn, s)" by (cases ns)
  obtain nn' s' where ns': "ns' = (nn', s')" by (cases ns')
  from assms(1) have r: "tryNodeForPod env nodeInfos nodename pod (nn, s) = Returned (ok, nn', s')"
    by (simp add: ns ns')
  note t = tryNodeForPod_step[OF r assms(2)]
  show "run_step nodeInfos {podKey pod} bannedNode ns ns'"
    unfolding run_step_def ns ns' using t(1) t(2) t(4) t(5) by simp
  show "ok \<Longrightarrow> newHints (snd ns') (podKey pod) = Some nodename"
    unfolding ns' using t(3) by simp
qed

lemma findPlaceFor_nodes_run:
  "findPlaceFor_nodes env nodeInfos bannedNode pod nodes ns = Returned (ok, ns') \<Longrightarrow>
   run_step nodeInfos {podKey pod} bannedNode ns ns' \<and>
   (ok \<longrightarrow> (\<exists>dest. newHints (snd ns') (podKey pod) = Some dest \<and> dest \<noteq> bannedNode))"
proof (induction nodes arbitrary: ns)
  case Nil
  then show ?case by (auto simp add: run_step_refl)
next
  case (Cons n rest)
  show ?case
  proof (cases "node_Name (store (snd ns) n) = bannedNode")
    case True
    with Cons.prems have "findPlaceFor_nodes env nodeInfos bannedNode pod rest ns = Returned (ok, ns')"
      by simp
    from Cons.IH[OF this] show ?thesis .
  next
    case False
    let ?name = "node_Name (store (snd ns) n)"
    from Cons.prems False obtain ok1 ns1 where
      t: "tryNodeForPod env nodeInfos ?name pod ns = Returned (ok1, ns1)"
      by (auto split: outcome.splits)
    note r1 = tryNodeForPod_run[OF t False]
    show ?thesis
    proof (cases ok1)
      case True
      with Cons.prems False t have "ok" "ns' = ns1" by simp_all
      with r1 True False show ?thesis by auto
    next
      case ok1: False
      with Cons.prems False t have
        "findPlaceFor_nodes env nodeInfos bannedNode pod rest ns1 = Returned (ok, ns')" by simp
      from Cons.IH[OF this] have
        2: "run_step nodeInfos {podKey pod} bannedNode ns1 ns'"
        and 3: "ok \<longrightarrow> (\<exists>dest. newHints (snd ns') (podKey pod) = Some dest \<and> dest \<noteq> bannedNode)"
        by blast+
      from run_step_trans[OF r1(1) 2] have "run_step nodeInfos {podKey pod} bannedNode ns ns'"
        by simp
      with 3 show ?thesis by blast
    qed
  qed
qed

lemma tryHintedNode_run:
  "tryHintedNode env nodeInfos bannedNode oldHints pod ns = Returned (ok, ns') \<Longrightarrow>
   run_step nodeInfos {podKey pod} bannedNode ns ns' \<and>
   (ok \<longrightarrow> (\<exists>dest. newHints (snd ns') (podKey pod) = Some dest \<and> dest \<noteq> bannedNode))"
proof -
  assume a: "tryHintedNode env nodeInfos bannedNode oldHints pod ns = Returned (ok, ns')"
  show ?thesis
  proof (cases "oldHints (podKey pod)")
    case None
    with a show ?thesis by (auto simp add: tryHintedNode_def run_step_refl)
  next
    case (Some hintedNode)
    show ?thesis
    proof (cases "hintedNode = bannedNode")
      case True
      with a Some show ?thesis by (auto simp add: tryHintedNode_def run_step_refl)
    next
      case False
      with a Some have t: "tryNodeForPod env nodeInfos hintedNode pod ns = Returned (ok, ns')"
        by (simp add: tryHintedNode_def)
      from tryNodeForPod_run[OF t False] False show ?thesis by blast
    qed
  qed
qed

lemma findPlaceFor_pods_run:
  "findPlaceFor_pods env nodeInfos bannedNode nodes oldHints ps ns = Returned (err, ns') \<Longrightarrow>
   run_step nodeInfos (podKey ` set ps) bannedNode ns ns' \<and>
   (err = None \<longrightarrow>
      (\<forall>p\<in>set ps. \<exists>dest. newHints (snd ns') (podKey p) = Some dest \<and> dest \<noteq> bannedNode))"
proof (induction ps arbitrary: ns)
  case Nil
  then show ?case by (auto simp add: run_step_refl)
next
  case (Cons podptr rest)
  let ?pod = "podptr\<lparr>Spec_NodeName := []\<rparr>"
  have k: "podKey ?pod = podKey podptr" by (rule podKey_cleared)
  from Cons.prems obtain f1 ns1 where
    h: "tryHintedNode env nodeInfos bannedNode oldHints ?pod ns = Returned (f1, ns1)"
    by (auto simp add: Let_def split: outcome.splits)
  from tryHintedNode_run[OF h] have
    h1: "run_step nodeInfos {podKey podptr} bannedNode ns ns1"
    and h2: "f1 \<longrightarrow> (\<exists>dest. newHints (snd ns1) (podKey podptr) = Some dest \<and> dest \<noteq> bannedNode)"
    unfolding k by blast+
  have fin: "\<And>nsm. run_step nodeInfos {podKey podptr} bannedNode ns nsm \<Longrightarrow>
      (\<exists>dest. newHints (snd nsm) (podKey podptr) = Some dest \<and> dest \<noteq> bannedNode) \<Longrightarrow>
      findPlaceFor_pods env nodeInfos bannedNode nodes oldHints rest nsm = Returned (err, ns') \<Longrightarrow>
      run_step nodeInfos (podKey ` set (podptr # rest)) bannedNode ns ns' \<and>
      (err = None \<longrightarrow>
        (\<forall>p\<in>set (podptr # rest). \<exists>dest. newHints (snd ns') (podKey p) = Some dest \<and> dest \<noteq> bannedNode))"
  proof -
    fix nsm
    assume a1: "run_step nodeInfos {podKey podptr} bannedNode ns nsm"
      and a2: "\<exists>dest. newHints (snd nsm) (podKey podptr) = Some dest \<and> dest \<noteq> bannedNode"
      and a3: "findPlaceFor_pods env nodeInfos bannedNode nodes oldHints rest nsm = Returned (err, ns')"
    from Cons.IH[OF a3] have
      i1: "run_step nodeInfos (podKey ` set rest) bannedNode nsm ns'"
      and i2: "err = None \<longrightarrow>
        (\<forall>p\<in>set rest. \<exists>dest. newHints (snd ns') (podKey p) = Some dest \<and> dest \<noteq> bannedNode)"
      by blast+
    from run_step_trans[OF a1 i1]
    have r: "run_step nodeInfos (podKey ` set (podptr # rest)) bannedNode ns ns'" by simp
    from i1 have "hints_step (podKey ` set rest) bannedNode (newHints (snd nsm)) (newHints (snd ns'))"
      by (simp add: run_step_def)
    from hints_step_keeps[OF this a2]
    have "\<exists>dest. newHints (snd ns') (podKey podptr) = Some dest \<and> dest \<noteq> bannedNode" .
    with r i2 show "run_step nodeInfos (podKey ` set (podptr # rest)) bannedNode ns ns' \<and>
      (err = None \<longrightarrow>
        (\<forall>p\<in>set (podptr # rest). \<exists>dest. newHints (snd ns') (podKey p) = Some dest \<and> dest \<noteq> bannedNode))"
      by simp
  qed
  show ?case
  proof (cases f1)
    case True
    with Cons.prems h have
      "findPlaceFor_pods env nodeInfos bannedNode nodes oldHints rest ns1 = Returned (err, ns')"
      by (simp add: Let_def)
    from fin[OF h1 _ this] h2 True show ?thesis by blast
  next
    case False
    with Cons.prems h obtain f2 ns2 where
      n: "findPlaceFor_nodes env nodeInfos bannedNode ?pod nodes ns1 = Returned (f2, ns2)"
      by (auto simp add: Let_def split: outcome.splits)
    from findPlaceFor_nodes_run[OF n] have
      n1: "run_step nodeInfos {podKey podptr} bannedNode ns1 ns2"
      and n2: "f2 \<longrightarrow> (\<exists>dest. newHints (snd ns2) (podKey podptr) = Some dest \<and> dest \<noteq> bannedNode)"
      unfolding k by blast+
    from run_step_trans[OF h1 n1] have r2: "run_step nodeInfos {podKey podptr} bannedNode ns ns2"
      by simp
    show ?thesis
    proof (cases f2)
      case True
      with Cons.prems h False n have
        "findPlaceFor_pods env nodeInfos bannedNode nodes oldHints rest ns2 = Returned (err, ns')"
        by (simp add: Let_def)
      from fin[OF r2 _ this] n2 True show ?thesis by blast
    next
      case f2: False
      with Cons.prems h False n have e: "err = Some FailedToFindPlace" "ns' = ns2"
        by (simp_all add: Let_def)
      from run_step_mono[OF r2, of "podKey ` set (podptr # rest)"] e show ?thesis by simp
    qed
  qed
qed

lemma findPlaceFor_run:
  assumes "findPlaceFor env bannedNode ps nodes nodeInfos oldHints s = Returned (err, s')"
  shows "store_step (store s) (store s')"
    and "hints_step (podKey ` set ps) bannedNode (newHints s) (newHints s')"
    and "evaluated_ok nodeInfos s \<Longrightarrow> evaluated_ok nodeInfos s'"
    and "err = None \<Longrightarrow>
           \<forall>p\<in>set ps. \<exists>dest. newHints s' (podKey p) = Some dest \<and> dest \<noteq> bannedNode"
proof -
  from assms obtain nn' where
    r: "findPlaceFor_pods env nodeInfos bannedNode nodes oldHints ps (Map.empty, s) = Returned (err, nn', s')"
    by (auto simp add: findPlaceFor_def split: outcome.splits)
  from findPlaceFor_pods_run[OF r] have
    1: "run_step nodeInfos (podKey ` set ps) bannedNode (Map.empty, s) (nn', s')"
    and 2: "err = None \<longrightarrow>
      (\<forall>p\<in>set ps. \<exists>dest. newHints (snd (nn', s')) (podKey p) = Some dest \<and> dest \<noteq> bannedNode)"
    by blast+
  have o: "overlay_ok nodeInfos Map.empty" by (simp add: overlay_ok_def)
  from 1 show "store_step (store s) (store s')" by (simp add: run_step_def)
  from 1 show "hints_step (podKey ` set ps) bannedNode (newHints s) (newHints s')"
    by (simp add: run_step_def)
  from 1 o show "evaluated_ok nodeInfos s \<Longrightarrow> evaluated_ok nodeInfos s'"
    by (simp add: run_step_def)
  from 2 show "err = None \<Longrightarrow>
           \<forall>p\<in>set ps. \<exists>dest. newHints s' (podKey p) = Some dest \<and> dest \<noteq> bannedNode"
    by simp
qed


subsection \<open>FindNodesToRemove\<close>

lemma candidateloop_run:
  "candidateloop env fastCheck maxCount allNodes nodeInfos oldHints cs (result, s) = Returned (result', s') \<Longrightarrow>
   store_step (store s) (store s') \<and>
   dom (newHints s) \<subseteq> dom (newHints s') \<and>
   (evaluated_ok nodeInfos s \<longrightarrow> evaluated_ok nodeInfos s') \<and>
   (\<exists>added. result' = result @ added \<and> set added \<subseteq> set cs \<and>
      (\<forall>c\<in>set added. \<exists>toMove s0 s1.
          podsToRemove env fastCheck nodeInfos (node_Name (store s c)) = Some toMove \<and>
          findPlaceFor env (node_Name (store s c)) toMove allNodes nodeInfos oldHints s0 = Returned (None, s1) \<and>
          (\<forall>p\<in>set toMove. \<exists>dest. newHints s1 (podKey p) = Some dest \<and> dest \<noteq> node_Name (store s c)) \<and>
          dom (newHints s1) \<subseteq> dom (newHints s')))"
proof (induction cs arbitrary: result s)
  case Nil
  then show ?case by (simp add: store_step_refl)
next
  case (Cons c rest)
  let ?name = "node_Name (store s c)"
  let ?Good = "\<lambda>st0 h c. \<exists>toMove s0 s1.
          podsToRemove env fastCheck nodeInfos (node_Name (st0 c)) = Some toMove \<and>
          findPlaceFor env (node_Name (st0 c)) toMove allNodes nodeInfos oldHints s0 = Returned (None, s1) \<and>
          (\<forall>p\<in>set toMove. \<exists>dest. newHints s1 (podKey p) = Some dest \<and> dest \<noteq> node_Name (st0 c)) \<and>
          dom (newHints s1) \<subseteq> dom h"
  show ?case
  proof (cases "podsToRemove env fastCheck nodeInfos ?name")
    case None
    with Cons.prems have
      "candidateloop env fastCheck maxCount allNodes nodeInfos oldHints rest (result, s) = Returned (result', s')"
      by simp
    from Cons.IH[OF this] show ?thesis by auto
  next
    case (Some toMove)
    from Cons.prems Some obtain fp s1 where
      f: "findPlaceFor env ?name toMove allNodes nodeInfos oldHints s = Returned (fp, s1)"
      by (auto split: outcome.splits)
    note fr = findPlaceFor_run[OF f]
    have d1: "dom (newHints s) \<subseteq> dom (newHints s1)"
      using fr(2) by (rule hints_step_dom)
    have names: "\<And>a. node_Name (store s1 a) = node_Name (store s a)"
      using store_step_fields(1)[OF fr(1)] .
    show ?thesis
    proof (cases fp)
      case (Some err)
      with Cons.prems \<open>podsToRemove env fastCheck nodeInfos ?name = Some toMove\<close> f have
        "candidateloop env fastCheck maxCount allNodes nodeInfos oldHints rest (result, s1) = Returned (result', s')"
        by simp
      from Cons.IH[OF this] obtain added where
        i: "store_step (store s1) (store s')" "dom (newHints s1) \<subseteq> dom (newHints s')"
           "evaluated_ok nodeInfos s1 \<longrightarrow> evaluated_ok nodeInfos s'"
           "result' = result @ added" "set added \<subseteq> set rest"
           "\<forall>c\<in>set added. ?Good (store s1) (newHints s') c"
        by blast
      have g: "\<forall>c\<in>set added. ?Good (store s) (newHints s') c"
        using i(6) unfolding names .
      have "store_step (store s) (store s')" using store_step_trans[OF fr(1) i(1)] .
      moreover have "dom (newHints s) \<subseteq> dom (newHints s')" using d1 i(2) by blast
      moreover have "evaluated_ok nodeInfos s \<longrightarrow> evaluated_ok nodeInfos s'" using fr(3) i(3) by blast
      moreover have "\<exists>added. result' = result @ added \<and> set added \<subseteq> set (c # rest) \<and>
          (\<forall>c\<in>set added. ?Good (store s) (newHints s') c)"
        using i(4) i(5) g by (intro exI[of _ added]) auto
      ultimately show ?thesis by blast
    next
      case None
      note fr4 = fr(4)[OF None]
      show ?thesis
      proof (cases "int (length (result @ [c])) \<ge> maxCount")
        case True
        with Cons.prems \<open>podsToRemove env fastCheck nodeInfos ?name = Some toMove\<close> f None
        have e: "result' = result @ [c]" "s' = s1" by simp_all
        have "?Good (store s) (newHints s') c"
          using \<open>podsToRemove env fastCheck nodeInfos ?name = Some toMove\<close> f None fr4 e(2) by blast
        then have "\<exists>added. result' = result @ added \<and> set added \<subseteq> set (c # rest) \<and>
          (\<forall>c\<in>set added. ?Good (store s) (newHints s') c)"
          using e(1) by (intro exI[of _ "[c]"]) simp
        with fr(1) d1 fr(3) e(2) show ?thesis by blast
      next
        case False
        with Cons.prems \<open>podsToRemove env fastCheck nodeInfos ?name = Some toMove\<close> f None have
          "candidateloop env fastCheck maxCount allNodes nodeInfos oldHints rest (result @ [c], s1) = Returned (result', s')"
          by simp
        from Cons.IH[OF this] obtain added where
          i: "store_step (store s1) (store s')" "dom (newHints s1) \<subseteq> dom (newHints s')"
             "evaluated_ok nodeInfos s1 \<longrightarrow> evaluated_ok nodeInfos s'"
             "result' = (result @ [c]) @ added" "set added \<subseteq> set rest"
             "\<forall>c\<in>set added. ?Good (store s1) (newHints s') c"
          by blast
        have g: "\<forall>c\<in>set added. ?Good (store s) (newHints s') c"
          using i(6) unfolding names .
        have gc: "?Good (store s) (newHints s') c"
          using \<open>podsToRemove env fastCheck nodeInfos ?name = Some toMove\<close> f None fr4 i(2) by blast
        have "store_step (store s) (store s')" using store_step_trans[OF fr(1) i(1)] .
        moreover have "dom (newHints s) \<subseteq> dom (newHints s')" using d1 i(2) by blast
        moreover have "evaluated_ok nodeInfos s \<longrightarrow> evaluated_ok nodeInfos s'" using fr(3) i(3) by blast
        moreover have "\<exists>added. result' = result @ added \<and> set added \<subseteq> set (c # rest) \<and>
          (\<forall>c\<in>set added. ?Good (store s) (newHints s') c)"
          using i(4) i(5) g gc by (intro exI[of _ "c # added"]) auto
        ultimately show ?thesis by blast
      qed
    qed
  qed
qed


text \<open>
  The example runs: the node infos built from the pods, a run that removes \<^verbatim>\<open>n1\<close>, and a
  \<^verbatim>\<open>findPlaceFor\<close> that places \<^verbatim>\<open>p1\<close> and then fails on \<^verbatim>\<open>p2\<close>.
\<close>

lemma simNodeInfos_eq:
  "setNodes simStore [1, 2] (CreateNodeNameToInfoMap [simPod ''p1'' ''n1'', simPod ''p3'' ''n2'']) = simNodeInfos"
  by (simp add: CreateNodeNameToInfoMap_def simNodeInfos_def simStore_def simNode_def simPod_def Let_def)

lemma sim_run:
  "FindNodesToRemove fitsAll [1] [1, 2] [simPod ''p1'' ''n1'', simPod ''p3'' ''n2''] 1 True Map.empty simStore =
     Returned (([1], [''default/p1'' \<mapsto> ''n2''], None), simFinal)"
  unfolding FindNodesToRemove_def simNodeInfos_eq Let_def
  by (simp add: simNodeInfos_def podsToRemove_def fitsAll_def findPlaceFor_def tryHintedNode_def
      tryNodeForPod_def simStore_def simNode_def simPod_def podKey_def simFinal_def Let_def)






text \<open>
  C10. \<^verbatim>\<open>FindNodesToRemove\<close> writes to the node objects it was given. For every evaluation
  of a node as a destination, the node object has, after the function has returned,
  \<^verbatim>\<open>Status.Allocatable\<close> equal to the \<^verbatim>\<open>Status.Capacity\<close> it came with; and nothing else
  is written: every node object is as it was, or as it was with that one field
  overwritten.
\<close>

theorem FindNodesToRemove_overwrites_Allocatable:
  assumes "FindNodesToRemove env candidates allNodes ps maxCount fastCheck oldHints st =
             Returned (r, s)"
  shows "(\<forall>e\<in>set (evaluations s).
            \<exists>nodeInfo a. setNodes st allNodes (CreateNodeNameToInfoMap ps) (fst e) = Some nodeInfo \<and>
                         node nodeInfo = Some a \<and>
                         Allocatable (store s a) = Capacity (st a)) \<and>
         (\<forall>a. store s a = st a \<or> store s a = (st a)\<lparr>Allocatable := Capacity (st a)\<rparr>)"
proof -
  let ?ni = "setNodes st allNodes (CreateNodeNameToInfoMap ps)"
  let ?s0 = "\<lparr>newHints = Map.empty, store = st, evaluations = []\<rparr>"
  from assms obtain result where
    l: "candidateloop env fastCheck maxCount allNodes ?ni oldHints candidates ([], ?s0) = Returned (result, s)"
    by (auto simp add: FindNodesToRemove_def Let_def split: outcome.splits)
  have e0: "evaluated_ok ?ni ?s0" by (simp add: evaluated_ok_def)
  from candidateloop_run[OF l] e0 have
    ss: "store_step st (store s)" and ev: "evaluated_ok ?ni s" by auto
  have "\<forall>e\<in>set (evaluations s).
            \<exists>nodeInfo a. ?ni (fst e) = Some nodeInfo \<and> node nodeInfo = Some a \<and>
                         Allocatable (store s a) = Capacity (st a)"
  proof
    fix e assume "e \<in> set (evaluations s)"
    with ev obtain ni a where
      n: "?ni (fst e) = Some ni" "node ni = Some a" "Allocatable (store s a) = Capacity (store s a)"
      unfolding evaluated_ok_def by blast
    from store_step_fields(2)[OF ss, of a] n
    show "\<exists>nodeInfo a. ?ni (fst e) = Some nodeInfo \<and> node nodeInfo = Some a \<and>
                         Allocatable (store s a) = Capacity (st a)" by auto
  qed
  moreover from ss have "\<forall>a. store s a = st a \<or> store s a = (st a)\<lparr>Allocatable := Capacity (st a)\<rparr>"
    by (simp add: store_step_def)
  ultimately show ?thesis by blast
qed

text \<open>
  In the example run \<^verbatim>\<open>n2\<close> was evaluated: its allocatable resources, which differed
  from its capacity, are equal to it afterwards, and \<^verbatim>\<open>n1\<close> is untouched.
\<close>

theorem FindNodesToRemove_overwrites_Allocatable_witness:
  "Allocatable (store simFinal 2) = Capacity (simStore 2) \<and>
   Allocatable (simStore 2) \<noteq> Capacity (simStore 2) \<and>
   store simFinal 1 = simStore 1"
proof -
  have e: "(''n2'', ''default/p1'', True) \<in> set (evaluations simFinal)"
    by (simp add: simFinal_def)
  from FindNodesToRemove_overwrites_Allocatable[OF sim_run] e have
    "\<exists>nodeInfo a. simNodeInfos (fst (''n2'', ''default/p1'', True)) = Some nodeInfo \<and>
        node nodeInfo = Some a \<and> Allocatable (store simFinal a) = Capacity (simStore a)"
    unfolding simNodeInfos_eq by blast
  then have 1: "Allocatable (store simFinal 2) = Capacity (simStore 2)"
    by (auto simp add: simNodeInfos_def)
  have "Allocatable (simStore 2) ResourceCPU \<noteq> Capacity (simStore 2) ResourceCPU"
    by (simp add: simStore_def simNode_def)
  then have 2: "Allocatable (simStore 2) \<noteq> Capacity (simStore 2)"
    by metis
  have 3: "store simFinal 1 = simStore 1" by (simp add: simFinal_def)
  from 1 2 3 show ?thesis by blast
qed




subsection \<open>The error result and the nil node\<close>

text \<open>
  Whenever \<^verbatim>\<open>FindNodesToRemove\<close> returns, its error is nil.
\<close>

lemma FindNodesToRemove_error_nil:
  "FindNodesToRemove env candidates allNodes ps maxCount fastCheck oldHints st =
     Returned ((result, hints, err), s) \<Longrightarrow> err = None"
  by (auto simp add: FindNodesToRemove_def Let_def split: outcome.splits)

text \<open>
  It returns whenever no node info is left without a node, which is the case when
  every pod's node is among \<^verbatim>\<open>allNodes\<close>.
\<close>

lemma tryNodeForPod_returns:
  assumes "overlay_ok nodeInfos (fst ns)" and "nodes_set nodeInfos"
  shows "tryNodeForPod env nodeInfos nodename pod ns \<noteq> Aborted"
proof -
  obtain nn s where ns: "ns = (nn, s)" by (cases ns)
  show ?thesis
  proof (cases "nn nodename")
    case None
    show ?thesis
    proof (cases "nodeInfos nodename")
      case n2: None
      with None show ?thesis by (simp add: tryNodeForPod_def ns)
    next
      case (Some ni)
      with assms(2) obtain a where "node ni = Some a" unfolding nodes_set_def by fastforce
      with None Some show ?thesis by (simp add: tryNodeForPod_def ns Let_def)
    qed
  next
    case (Some ni')
    with assms(1) obtain a where "node ni' = Some a" unfolding overlay_ok_def ns by fastforce
    with Some show ?thesis by (simp add: tryNodeForPod_def ns Let_def)
  qed
qed

lemma findPlaceFor_nodes_returns:
  "overlay_ok nodeInfos (fst ns) \<Longrightarrow> nodes_set nodeInfos \<Longrightarrow>
   findPlaceFor_nodes env nodeInfos bannedNode pod nodes ns \<noteq> Aborted"
proof (induction nodes arbitrary: ns)
  case Nil
  then show ?case by simp
next
  case (Cons n rest)
  show ?case
  proof (cases "node_Name (store (snd ns) n) = bannedNode")
    case True
    with Cons show ?thesis by simp
  next
    case False
    let ?name = "node_Name (store (snd ns) n)"
    from tryNodeForPod_returns[OF Cons.prems, of env ?name pod] obtain ok ns1 where
      t: "tryNodeForPod env nodeInfos ?name pod ns = Returned (ok, ns1)"
      by (cases "tryNodeForPod env nodeInfos ?name pod ns") auto
    from tryNodeForPod_run(1)[OF t False] Cons.prems(1) have o1: "overlay_ok nodeInfos (fst ns1)"
      by (simp add: run_step_def)
    from Cons.IH[OF o1 Cons.prems(2)] t False show ?thesis by simp
  qed
qed

lemma tryHintedNode_returns:
  "overlay_ok nodeInfos (fst ns) \<Longrightarrow> nodes_set nodeInfos \<Longrightarrow>
   tryHintedNode env nodeInfos bannedNode oldHints pod ns \<noteq> Aborted"
  using tryNodeForPod_returns
  by (simp add: tryHintedNode_def split: option.splits)

lemma findPlaceFor_pods_returns:
  "overlay_ok nodeInfos (fst ns) \<Longrightarrow> nodes_set nodeInfos \<Longrightarrow>
   findPlaceFor_pods env nodeInfos bannedNode nodes oldHints ps ns \<noteq> Aborted"
proof (induction ps arbitrary: ns)
  case Nil
  then show ?case by simp
next
  case (Cons podptr rest)
  let ?pod = "podptr\<lparr>Spec_NodeName := []\<rparr>"
  from tryHintedNode_returns[OF Cons.prems, of env bannedNode oldHints ?pod] obtain f1 ns1 where
    h: "tryHintedNode env nodeInfos bannedNode oldHints ?pod ns = Returned (f1, ns1)"
    by (cases "tryHintedNode env nodeInfos bannedNode oldHints ?pod ns") auto
  from tryHintedNode_run[OF h] Cons.prems(1) have o1: "overlay_ok nodeInfos (fst ns1)"
    by (simp add: run_step_def)
  show ?case
  proof (cases f1)
    case True
    with Cons.IH[OF o1 Cons.prems(2)] h show ?thesis by (simp add: Let_def)
  next
    case False
    from findPlaceFor_nodes_returns[OF o1 Cons.prems(2), of env bannedNode ?pod nodes] obtain f2 ns2 where
      n: "findPlaceFor_nodes env nodeInfos bannedNode ?pod nodes ns1 = Returned (f2, ns2)"
      by (cases "findPlaceFor_nodes env nodeInfos bannedNode ?pod nodes ns1") auto
    from findPlaceFor_nodes_run[OF n] o1 have o2: "overlay_ok nodeInfos (fst ns2)"
      by (simp add: run_step_def)
    from Cons.IH[OF o2 Cons.prems(2)] h False n show ?thesis by (simp add: Let_def)
  qed
qed

lemma findPlaceFor_returns:
  "nodes_set nodeInfos \<Longrightarrow> findPlaceFor env bannedNode ps nodes nodeInfos oldHints s \<noteq> Aborted"
proof -
  assume a: "nodes_set nodeInfos"
  have "overlay_ok nodeInfos (fst (Map.empty, s))" by (simp add: overlay_ok_def)
  from findPlaceFor_pods_returns[OF this a, of env bannedNode nodes oldHints ps]
  show ?thesis by (simp add: findPlaceFor_def split: outcome.splits)
qed

lemma candidateloop_returns:
  "nodes_set nodeInfos \<Longrightarrow>
   candidateloop env fastCheck maxCount allNodes nodeInfos oldHints cs rs \<noteq> Aborted"
proof (induction cs arbitrary: rs)
  case Nil
  then show ?case by simp
next
  case (Cons c rest)
  obtain result s where rs: "rs = (result, s)" by (cases rs)
  show ?case
  proof (cases "podsToRemove env fastCheck nodeInfos (node_Name (store s c))")
    case None
    with Cons show ?thesis by (simp add: rs)
  next
    case (Some toMove)
    from findPlaceFor_returns[OF Cons.prems, of env "node_Name (store s c)" toMove allNodes oldHints s]
    obtain fp s1 where
      f: "findPlaceFor env (node_Name (store s c)) toMove allNodes nodeInfos oldHints s = Returned (fp, s1)"
      by (cases "findPlaceFor env (node_Name (store s c)) toMove allNodes nodeInfos oldHints s") auto
    from Cons.IH[OF Cons.prems] Some f show ?thesis
      by (simp add: rs split: option.splits)
  qed
qed

lemma CreateNodeNameToInfoMap_loop_dom:
  "dom (CreateNodeNameToInfoMap_loop ps m) = dom m \<union> Spec_NodeName ` set ps"
  by (induction ps arbitrary: m) (auto simp add: Let_def)

lemma setNodes_keeps_node:
  "\<exists>x. m k = Some x \<and> node x \<noteq> None \<Longrightarrow> setNodes st ns m k = Some ni \<Longrightarrow>
   node ni \<noteq> None"
proof (induction ns arbitrary: m)
  case Nil
  then show ?case by auto
next
  case (Cons n rest)
  show ?case
  proof (cases "m (node_Name (st n))")
    case None
    with Cons.prems have "setNodes st rest m k = Some ni" by simp
    from Cons.IH[OF Cons.prems(1) this] show ?thesis .
  next
    case (Some ni0)
    let ?m1 = "m(node_Name (st n) \<mapsto> ni0\<lparr>node := Some n\<rparr>)"
    from Cons.prems Some have r: "setNodes st rest ?m1 k = Some ni" by simp
    from Cons.prems(1) have "\<exists>x. ?m1 k = Some x \<and> node x \<noteq> None" by simp
    from Cons.IH[OF this r] show ?thesis .
  qed
qed

lemma setNodes_result:
  "setNodes st ns m k = Some ni \<Longrightarrow>
   k \<in> dom m \<and> (node ni \<noteq> None \<or> k \<notin> (\<lambda>n. node_Name (st n)) ` set ns)"
proof (induction ns arbitrary: m)
  case Nil
  then show ?case by auto
next
  case (Cons n rest)
  show ?case
  proof (cases "m (node_Name (st n))")
    case None
    with Cons.prems have "setNodes st rest m k = Some ni" by simp
    from Cons.IH[OF this] None show ?thesis by auto
  next
    case (Some ni0)
    let ?m1 = "m(node_Name (st n) \<mapsto> ni0\<lparr>node := Some n\<rparr>)"
    from Cons.prems Some have r: "setNodes st rest ?m1 k = Some ni" by simp
    from Cons.IH[OF r] have i: "k \<in> dom ?m1" "node ni \<noteq> None \<or> k \<notin> (\<lambda>n. node_Name (st n)) ` set rest"
      by blast+
    show ?thesis
    proof (cases "k = node_Name (st n)")
      case False
      with i Some show ?thesis by auto
    next
      case True
      have "\<exists>x. ?m1 k = Some x \<and> node x \<noteq> None" using True by simp
      from setNodes_keeps_node[OF this r] have "node ni \<noteq> None" .
      with i Some True show ?thesis by auto
    qed
  qed
qed

lemma FindNodesToRemove_returns:
  assumes "\<forall>p\<in>set ps. \<exists>n\<in>set allNodes. node_Name (st n) = Spec_NodeName p"
  shows "\<exists>result hints s.
           FindNodesToRemove env candidates allNodes ps maxCount fastCheck oldHints st =
             Returned ((result, hints, None), s)"
proof -
  let ?ni = "setNodes st allNodes (CreateNodeNameToInfoMap ps)"
  have "nodes_set ?ni"
    unfolding nodes_set_def
  proof (intro allI impI)
    fix k ni assume a: "?ni k = Some ni"
    from setNodes_result[OF a] have
      d: "k \<in> dom (CreateNodeNameToInfoMap ps)"
      and n: "node ni \<noteq> None \<or> k \<notin> (\<lambda>n. node_Name (st n)) ` set allNodes" by blast+
    from d have "k \<in> Spec_NodeName ` set ps"
      by (simp add: CreateNodeNameToInfoMap_def CreateNodeNameToInfoMap_loop_dom)
    with assms have "k \<in> (\<lambda>n. node_Name (st n)) ` set allNodes" by force
    with n show "node ni \<noteq> None" by blast
  qed
  from candidateloop_returns[OF this, of env fastCheck maxCount allNodes oldHints candidates
      "([], \<lparr>newHints = Map.empty, store = st, evaluations = []\<rparr>)"]
  show ?thesis
    by (cases "candidateloop env fastCheck maxCount allNodes ?ni oldHints candidates
      ([], \<lparr>newHints = Map.empty, store = st, evaluations = []\<rparr>)")
       (auto simp add: FindNodesToRemove_def Let_def)
qed


text \<open>
  C9 fails on the code. The pod \<^verbatim>\<open>p3\<close> runs on \<^verbatim>\<open>n2\<close>, which is not among \<^verbatim>\<open>allNodes\<close>, so
  the node info of \<^verbatim>\<open>n2\<close> never gets a node; the old hint of \<^verbatim>\<open>p1\<close> names \<^verbatim>\<open>n2\<close>, and
  \<^verbatim>\<open>tryNodeForPod\<close> dereferences \<^verbatim>\<open>nodeInfo.Node()\<close>, which is nil. The call panics
  instead of returning a nil error.
\<close>

theorem FindNodesToRemove_nil_node_panics:
  "FindNodesToRemove fitsAll [1] [1] [simPod ''p1'' ''n1'', simPod ''p3'' ''n2''] 1 True
     [''default/p1'' \<mapsto> ''n2''] simStore = Aborted"
  by (simp add: FindNodesToRemove_def CreateNodeNameToInfoMap_def Let_def podsToRemove_def
      fitsAll_def findPlaceFor_def tryHintedNode_def tryNodeForPod_def simStore_def simNode_def
      simPod_def podKey_def)

end
